theory Spec2Isabelle
  imports Complex_Main "HOL-Library.AList" "HOL-Library.Multiset"
begin

section \<open>Python values\<close>

subsection \<open>Floats\<close>

text \<open>
  A Python float is an IEEE binary64 value. It is modelled by what it denotes: not-a-number,
  one of the two infinities, or the exact value of a finite double (the two signed
  zeros are identified; no operation of \<^verbatim>\<open>api.py\<close> tells them apart).
\<close>

datatype pyfloat = NaN | NegInf | PosInf | Fin real

text \<open>\<^verbatim>\<open>math.isnan\<close>.\<close>

fun isnan :: "pyfloat \<Rightarrow> bool" where
  "isnan NaN = True"
| "isnan _ = False"

text \<open>The comparison \<^verbatim>\<open><\<close> of two floats; every comparison with NaN is false.\<close>

fun flt :: "pyfloat \<Rightarrow> pyfloat \<Rightarrow> bool" where
  "flt NaN _ = False"
| "flt _ NaN = False"
| "flt _ NegInf = False"
| "flt NegInf _ = True"
| "flt PosInf _ = False"
| "flt (Fin a) PosInf = True"
| "flt (Fin a) (Fin b) = (a < b)"

definition pow2 :: "int \<Rightarrow> real" where
  "pow2 k = (if 0 \<le> k then 2 ^ nat k else 1 / 2 ^ nat (- k))"

definition pow10 :: "int \<Rightarrow> real" where
  "pow10 k = (if 0 \<le> k then 10 ^ nat k else 1 / 10 ^ nat (- k))"

text \<open>The number of bits of a positive integer, \<^verbatim>\<open>int.bit_length\<close>.\<close>

function bit_length :: "int \<Rightarrow> int" where
  "bit_length n = (if n \<le> 0 then 0 else 1 + bit_length (n div 2))"
  by pat_completeness auto
termination
  by (relation "measure nat") auto

declare bit_length.simps [simp del]

text \<open>The binary exponent of a positive real \<open>a\<close>: \<open>2 ^ e \<le> a < 2 ^ (e + 1)\<close>.\<close>

definition ilog2 :: "real \<Rightarrow> int" where
  "ilog2 a = (if 1 \<le> a then bit_length \<lfloor>a\<rfloor> - 1 else - bit_length (\<lceil>1 / a\<rceil> - 1))"

definition round_half_even :: "real \<Rightarrow> int" where
  "round_half_even x = (let f = \<lfloor>x\<rfloor>; d = x - of_int f
                        in if d < 1 / 2 then f
                           else if 1 / 2 < d then f + 1
                           else if even f then f else f + 1)"

text \<open>
  Rounding of an exact value to binary64 (53 significant bits, least exponent \<open>-1074\<close>,
  round to nearest, ties to even, overflow to infinity): the rounding of every float
  operation of the runtime and of the conversion of a decimal literal.
\<close>

definition round_double :: "real \<Rightarrow> pyfloat" where
  "round_double r =
     (if r = 0 then Fin 0
      else let a = \<bar>r\<bar>;
               q = max (ilog2 a - 52) (- 1074);
               v = of_int (round_half_even (a / pow2 q)) * pow2 q
           in if pow2 1024 \<le> v then (if r < 0 then NegInf else PosInf)
              else Fin (if r < 0 then - v else v))"

text \<open>Float addition \<^verbatim>\<open>+\<close>.\<close>

fun fadd :: "pyfloat \<Rightarrow> pyfloat \<Rightarrow> pyfloat" where
  "fadd NaN _ = NaN"
| "fadd _ NaN = NaN"
| "fadd PosInf NegInf = NaN"
| "fadd NegInf PosInf = NaN"
| "fadd PosInf _ = PosInf"
| "fadd NegInf _ = NegInf"
| "fadd _ PosInf = PosInf"
| "fadd _ NegInf = NegInf"
| "fadd (Fin a) (Fin b) = round_double (a + b)"

text \<open>
  The builtin \<^verbatim>\<open>sum\<close> on a list of floats: it starts from the integer \<open>0\<close> and adds from
  the left, as CPython does up to version 3.11. Later versions carry a compensation term
  for the rounding errors along; for one or two finite summands they return the same double.
\<close>

definition py_sum :: "pyfloat list \<Rightarrow> pyfloat" where
  "py_sum xs = foldl fadd (Fin 0) xs"

subsection \<open>JSON values\<close>

text \<open>
  What \<^verbatim>\<open>r.json()\<close> returns and what the fields typed \<^verbatim>\<open>Any\<close> hold: an object is an
  association list with string keys, in insertion order.
\<close>

datatype pyval =
    PNone
  | PBool bool
  | PInt int
  | PFloat pyfloat
  | PStr string
  | PList "pyval list"
  | PDict "(string \<times> pyval) list"

text \<open>Truth value of an object, as \<^verbatim>\<open>if x\<close>, \<^verbatim>\<open>not x\<close>, \<^verbatim>\<open>x or y\<close> and \<^verbatim>\<open>bool(x)\<close> test it.\<close>

fun truthy :: "pyval \<Rightarrow> bool" where
  "truthy PNone = False"
| "truthy (PBool b) = b"
| "truthy (PInt i) = (i \<noteq> 0)"
| "truthy (PFloat f) = (f \<noteq> Fin 0)"
| "truthy (PStr s) = (s \<noteq> [])"
| "truthy (PList xs) = (xs \<noteq> [])"
| "truthy (PDict kvs) = (kvs \<noteq> [])"

text \<open>\<^verbatim>\<open>d.get(k)\<close>: the value under the key, \<^verbatim>\<open>None\<close> when the key is absent.\<close>

definition dict_get :: "(string \<times> pyval) list \<Rightarrow> string \<Rightarrow> pyval" where
  "dict_get d k = (case map_of d k of None \<Rightarrow> PNone | Some v \<Rightarrow> v)"

datatype error =
    TypeError
  | ValueError
  | OverflowError
  | AttributeError
  | JSONDecodeError
  | HTTPError nat
  | RequestException

subsection \<open>The builtin \<^verbatim>\<open>float\<close>\<close>

text \<open>
  The grammar of \<^verbatim>\<open>float(s)\<close> on an ASCII string: surrounding whitespace, a sign, then
  \<^verbatim>\<open>inf\<close>, \<^verbatim>\<open>infinity\<close> or \<^verbatim>\<open>nan\<close> in any case, or a decimal number whose digit groups may
  be separated by single underscores, with an optional exponent. The value is the
  correctly rounded double.
\<close>

definition is_space :: "char \<Rightarrow> bool" where
  "is_space c = (c \<in> set [CHR 0x09, CHR 0x0A, CHR 0x0B, CHR 0x0C, CHR 0x0D, CHR 0x20])"

definition is_digit :: "char \<Rightarrow> bool" where
  "is_digit c = (48 \<le> (of_char c :: nat) \<and> (of_char c :: nat) \<le> 57)"

definition digit_val :: "char \<Rightarrow> nat" where
  "digit_val c = of_char c - 48"

definition lower :: "char \<Rightarrow> char" where
  "lower c = (if 65 \<le> (of_char c :: nat) \<and> (of_char c :: nat) \<le> 90
              then char_of ((of_char c :: nat) + 32) else c)"

definition strip :: "string \<Rightarrow> string" where
  "strip s = rev (dropWhile is_space (rev (dropWhile is_space s)))"

text \<open>The rest of a digit part, after its first digit: \<^verbatim>\<open>(["_"] digit)*\<close>.\<close>

fun digitpart_rest :: "string \<Rightarrow> nat list \<times> string" where
  "digitpart_rest [] = ([], [])"
| "digitpart_rest [c] = (if is_digit c then ([digit_val c], []) else ([], [c]))"
| "digitpart_rest (c # d # cs) =
     (if is_digit c then (case digitpart_rest (d # cs) of (ds, r) \<Rightarrow> (digit_val c # ds, r))
      else if c = CHR ''_'' \<and> is_digit d
           then (case digitpart_rest cs of (ds, r) \<Rightarrow> (digit_val d # ds, r))
      else ([], c # d # cs))"

definition digitpart :: "string \<Rightarrow> (nat list \<times> string) option" where
  "digitpart s = (case s of
       [] \<Rightarrow> None
     | c # cs \<Rightarrow> if is_digit c
                then (case digitpart_rest cs of (ds, r) \<Rightarrow> Some (digit_val c # ds, r))
                else None)"

text \<open>\<^verbatim>\<open>number ::= [digitpart] "." digitpart | digitpart ["."]\<close>: integer digits, fraction digits, rest.\<close>

definition number :: "string \<Rightarrow> (nat list \<times> nat list \<times> string) option" where
  "number s = (case digitpart s of
       Some (ip, r) \<Rightarrow>
         (case r of
            c # r' \<Rightarrow>
              if c = CHR ''.''
              then (case digitpart r' of
                      Some (fp, r'') \<Rightarrow> Some (ip, fp, r'')
                    | None \<Rightarrow> Some (ip, [], r'))
              else Some (ip, [], r)
          | [] \<Rightarrow> Some (ip, [], []))
     | None \<Rightarrow>
         (case s of
            c # r' \<Rightarrow>
              if c = CHR ''.''
              then (case digitpart r' of
                      Some (fp, r'') \<Rightarrow> Some ([], fp, r'')
                    | None \<Rightarrow> None)
              else None
          | [] \<Rightarrow> None))"

definition digits_value :: "nat list \<Rightarrow> nat" where
  "digits_value ds = foldl (\<lambda>a d. 10 * a + d) 0 ds"

text \<open>\<^verbatim>\<open>exponent ::= ("e" | "E") [sign] digitpart\<close>, up to the end of the string.\<close>

definition exponent :: "string \<Rightarrow> int option" where
  "exponent s = (case s of
       [] \<Rightarrow> Some 0
     | c # r \<Rightarrow>
         if c = CHR ''e'' \<or> c = CHR ''E''
         then (let (neg, r') = (case r of
                                  [] \<Rightarrow> (False, r)
                                | x # xs \<Rightarrow> if x = CHR ''-'' then (True, xs)
                                            else if x = CHR ''+'' then (False, xs)
                                            else (False, r))
               in case digitpart r' of
                    Some (ds, []) \<Rightarrow> Some (if neg then - int (digits_value ds) else int (digits_value ds))
                  | _ \<Rightarrow> None)
         else None)"

definition float_of_str :: "string \<Rightarrow> pyfloat option" where
  "float_of_str s =
     (let t = strip s;
          (neg, u) = (case t of
                        [] \<Rightarrow> (False, t)
                      | x # xs \<Rightarrow> if x = CHR ''-'' then (True, xs)
                                  else if x = CHR ''+'' then (False, xs)
                                  else (False, t));
          w = map lower u
      in if w = ''inf'' \<or> w = ''infinity'' then Some (if neg then NegInf else PosInf)
         else if w = ''nan'' then Some NaN
         else (case number u of
                 None \<Rightarrow> None
               | Some (ip, fp, r) \<Rightarrow>
                   (case exponent r of
                      None \<Rightarrow> None
                    | Some e \<Rightarrow>
                        (let v = of_nat (digits_value (ip @ fp)) * pow10 (e - int (length fp))
                         in Some (round_double (if neg then - v else v))))))"

text \<open>
  \<^verbatim>\<open>float(x)\<close>: a float is returned as it is, a bool or an int is converted (an int beyond
  the range of a double raises \<^verbatim>\<open>OverflowError\<close>), a string is parsed (\<^verbatim>\<open>ValueError\<close> when
  it is no float literal), and \<^verbatim>\<open>None\<close>, a list or a dict raises \<^verbatim>\<open>TypeError\<close>.
\<close>

fun py_float :: "pyval \<Rightarrow> error + pyfloat" where
  "py_float PNone = Inl TypeError"
| "py_float (PBool b) = Inr (Fin (if b then 1 else 0))"
| "py_float (PInt i) =
     (case round_double (of_int i) of
        Fin r \<Rightarrow> Inr (Fin r)
      | _ \<Rightarrow> Inl OverflowError)"
| "py_float (PFloat f) = Inr f"
| "py_float (PStr s) = (case float_of_str s of None \<Rightarrow> Inl ValueError | Some f \<Rightarrow> Inr f)"
| "py_float (PList xs) = Inl TypeError"
| "py_float (PDict kvs) = Inl TypeError"

section \<open>The price aggregator's numeric conversion\<close>

text \<open>
  \<^verbatim>\<open>_to_float\<close>: \<^verbatim>\<open>None\<close> gives NaN, and so does every exception that \<^verbatim>\<open>float(x)\<close> raises
  (the handler is \<^verbatim>\<open>except Exception\<close>).
\<close>

definition to_float :: "pyval \<Rightarrow> error + pyfloat" where
  "to_float x =
     (case (if x = PNone then Inr NaN else py_float x) of
        Inl e \<Rightarrow> Inr NaN
      | Inr f \<Rightarrow> Inr f)"

section \<open>The HTTP boundary\<close>

text \<open>
  What a call of \<^verbatim>\<open>requests.get\<close> or \<^verbatim>\<open>requests.post\<close> gives: no response at all (the
  call itself raises, on a timeout or a connection failure), or a response with its status
  code and its body, \<open>None\<close> when the body is no JSON document.
\<close>

datatype response = NoResponse | Response nat "pyval option"

text \<open>\<^verbatim>\<open>r.raise_for_status()\<close> raises exactly on the statuses \<open>400\<close> to \<open>599\<close>.\<close>

definition is_error_status :: "nat \<Rightarrow> bool" where
  "is_error_status status = (400 \<le> status \<and> status < 600)"

subsection \<open>\<^verbatim>\<open>get_book\<close>\<close>

text \<open>The \<^verbatim>\<open>/book\<close> endpoint, as a function of the \<^verbatim>\<open>token_id\<close> parameter.\<close>

type_synonym book_server = "string \<Rightarrow> response"

definition get_book :: "book_server \<Rightarrow> string \<Rightarrow> error + pyval" where
  "get_book srv token_id =
     (case srv token_id of
        NoResponse \<Rightarrow> Inl RequestException
      | Response status body \<Rightarrow>
          if status = 404
          then Inr (PDict [(''error'', PStr ''not_found''), (''token_id'', PStr token_id)])
          else if is_error_status status then Inl (HTTPError status)
          else (case body of None \<Rightarrow> Inl JSONDecodeError | Some js \<Rightarrow> Inr js))"

subsection \<open>\<^verbatim>\<open>get_best_prices\<close>\<close>

text \<open>
  A request to \<^verbatim>\<open>/prices\<close> is its \<^verbatim>\<open>params\<close> list, one pair of token id and side per
  entry. The endpoint answers a request knowing the requests it has received before, so
  that its answers may change over time. Every function that calls the endpoint returns,
  beside its result, the requests it has issued, in order.
\<close>

type_synonym request = "(string \<times> string) list"

type_synonym price_server = "request list \<Rightarrow> request \<Rightarrow> response"

type_synonym price_map = "(string \<times> pyval) list"

text \<open>
  Lines 133 to 136: \<^verbatim>\<open>data = r.json() or {}\<close>, and when \<^verbatim>\<open>data\<close> is a dict every item is
  stored under its key (a JSON key is a string, which \<^verbatim>\<open>str\<close> leaves as it is). Storing
  under a key already there replaces the value in place, a new key goes to the end.
\<close>

definition merge_response :: "price_map \<Rightarrow> pyval \<Rightarrow> price_map" where
  "merge_response out js =
     (case (if truthy js then js else PDict []) of
        PDict items \<Rightarrow> foldl (\<lambda>acc (asset_id, sides). AList.update asset_id sides acc) out items
      | _ \<Rightarrow> out)"

text \<open>
  The loop of lines 128 to 136 over the token ids not yet sent: the batch is the next
  \<open>batch_size\<close> of them. The first failure ends the call.
\<close>

function fetch_batches ::
  "price_server \<Rightarrow> string \<Rightarrow> nat \<Rightarrow> string list \<Rightarrow> request list \<Rightarrow> price_map
     \<Rightarrow> (error + price_map) \<times> request list" where
  "fetch_batches srv side batch_size token_ids sent out =
     (if token_ids = [] \<or> batch_size = 0 then (Inr out, sent)
      else let batch = take batch_size token_ids;
               payload = map (\<lambda>tid. (tid, side)) batch;
               sent' = sent @ [payload]
           in case srv sent payload of
                NoResponse \<Rightarrow> (Inl RequestException, sent')
              | Response status body \<Rightarrow>
                  if is_error_status status then (Inl (HTTPError status), sent')
                  else (case body of
                          None \<Rightarrow> (Inl JSONDecodeError, sent')
                        | Some js \<Rightarrow>
                            fetch_batches srv side batch_size (drop batch_size token_ids) sent'
                              (merge_response out js)))"
  by pat_completeness auto
termination
  by (relation "measure (\<lambda>(srv, side, batch_size, token_ids, sent, out). length token_ids)") auto

text \<open>
  \<^verbatim>\<open>get_best_prices\<close>: nothing is requested for an empty list; \<^verbatim>\<open>range\<close> raises
  \<^verbatim>\<open>ValueError\<close> on a step of zero and is empty on a negative step.
\<close>

definition get_best_prices ::
  "price_server \<Rightarrow> string list \<Rightarrow> string \<Rightarrow> int \<Rightarrow> (error + price_map) \<times> request list" where
  "get_best_prices srv token_ids side batch_size =
     (if token_ids = [] then (Inr [], [])
      else if batch_size = 0 then (Inl ValueError, [])
      else if batch_size < 0 then (Inr [], [])
      else fetch_batches srv side (nat batch_size) token_ids [] [])"

section \<open>The normalizer\<close>

text \<open>
  A token and a market of a simplified-markets page, with the fields the normalizer reads;
  a field read with \<^verbatim>\<open>.get\<close> holds \<^verbatim>\<open>None\<close> when the key is absent. The condition id is a
  string, or \<open>None\<close> when absent or null; the token list is \<open>None\<close> when absent or null.
\<close>

record token_json =
  t_token_id :: pyval
  t_name :: pyval
  t_outcome :: pyval
  t_title :: pyval

record market_json =
  m_condition_id :: "string option"
  m_active :: pyval
  m_closed :: pyval
  m_tokens :: "token_json list option"

text \<open>The page: the list under \<^verbatim>\<open>"data"\<close>, \<open>None\<close> when the key is absent.\<close>

record page_json =
  page_data :: "market_json list option"

text \<open>
  A row of the normalizer, the input of the aggregator. The ids have the types the source
  annotates (\<^verbatim>\<open>by_market: Dict[str, List[str]]\<close>): a string, or \<open>None\<close> when the key is
  absent or its value is null. The flags and the label are any value.
\<close>

record token_row =
  condition_id :: "string option"
  active_flag :: pyval
  closed_flag :: pyval
  token_id :: "string option"
  label :: pyval

text \<open>\<^verbatim>\<open>x or y\<close>.\<close>

definition py_or :: "pyval \<Rightarrow> pyval \<Rightarrow> pyval" where
  "py_or x y = (if truthy x then x else y)"

text \<open>The row appended at lines 92 to 100; \<open>py_str\<close> is the builtin \<^verbatim>\<open>str\<close>.\<close>

definition token_to_row :: "(pyval \<Rightarrow> string) \<Rightarrow> market_json \<Rightarrow> token_json \<Rightarrow> token_row" where
  "token_to_row py_str m t =
     \<lparr> condition_id = m_condition_id m,
       active_flag = PBool (truthy (m_active m)),
       closed_flag = PBool (truthy (m_closed m)),
       token_id = (if t_token_id t \<noteq> PNone then Some (py_str (t_token_id t)) else None),
       label = py_or (t_name t) (py_or (t_outcome t) (t_title t)) \<rparr>"

text \<open>\<^verbatim>\<open>m.get("tokens") or []\<close>.\<close>

definition market_tokens :: "market_json \<Rightarrow> token_json list" where
  "market_tokens m = (case m_tokens m of None \<Rightarrow> [] | Some ts \<Rightarrow> ts)"

definition flatten_tokens_from_simplified :: "(pyval \<Rightarrow> string) \<Rightarrow> page_json \<Rightarrow> token_row list" where
  "flatten_tokens_from_simplified py_str page_json =
     (let data = (case page_data page_json of None \<Rightarrow> [] | Some ms \<Rightarrow> ms)
      in concat (map (\<lambda>m. map (token_to_row py_str m) (market_tokens m)) data))"

section \<open>The price aggregator\<close>

subsection \<open>Grouping\<close>

text \<open>\<^verbatim>\<open>by_market\<close>: the markets in the order of their first kept row, each with its token ids.\<close>

type_synonym by_market = "(string \<times> string list) list"

text \<open>\<^verbatim>\<open>by_market.setdefault(cond, []).append(tid)\<close>.\<close>

fun setdefault_append :: "string \<Rightarrow> string \<Rightarrow> by_market \<Rightarrow> by_market" where
  "setdefault_append cond tid [] = [(cond, [tid])]"
| "setdefault_append cond tid ((c, tids) # rest) =
     (if c = cond then (c, tids @ [tid]) # rest
      else (c, tids) # setdefault_append cond tid rest)"

text \<open>The body of the loop of lines 174 to 179.\<close>

definition group_step :: "by_market \<Rightarrow> token_row \<Rightarrow> by_market" where
  "group_step acc t =
     (case condition_id t of
        None \<Rightarrow> acc
      | Some cond \<Rightarrow>
          if cond = [] then acc
          else (case token_id t of
                  None \<Rightarrow> acc
                | Some tid \<Rightarrow>
                    if tid = [] then acc
                    else if truthy (closed_flag t) then acc
                    else setdefault_append cond tid acc))"

definition group_by_market :: "token_row list \<Rightarrow> by_market" where
  "group_by_market tokens = foldl group_step [] tokens"

text \<open>Line 182.\<close>

definition all_token_ids :: "by_market \<Rightarrow> string list" where
  "all_token_ids groups = concat (map snd groups)"

subsection \<open>Summing\<close>

text \<open>
  Lines 189 to 192 for one token id: the quote under \<^verbatim>\<open>"BUY"\<close> of the token's entry of the
  price map, converted. An entry that is no dict has no \<^verbatim>\<open>get\<close>.
\<close>

definition lookup_ask :: "price_map \<Rightarrow> string \<Rightarrow> error + pyfloat" where
  "lookup_ask price_map tid =
     (case map_of price_map tid of
        None \<Rightarrow> to_float PNone
      | Some sides \<Rightarrow>
          (case sides of
             PDict kvs \<Rightarrow> to_float (dict_get kvs ''BUY'')
           | _ \<Rightarrow> Inl AttributeError))"

fun market_asks :: "price_map \<Rightarrow> string list \<Rightarrow> error + pyfloat list" where
  "market_asks price_map [] = Inr []"
| "market_asks price_map (tid # tids) =
     (case lookup_ask price_map tid of
        Inl e \<Rightarrow> Inl e
      | Inr a \<Rightarrow>
          (case market_asks price_map tids of
             Inl e \<Rightarrow> Inl e
           | Inr asks \<Rightarrow> Inr (a # asks)))"

text \<open>Lines 193 and 194.\<close>

definition finite_asks :: "pyfloat list \<Rightarrow> pyfloat list" where
  "finite_asks asks = filter (\<lambda>x. \<not> isnan x) asks"

definition sum_finite :: "pyfloat list \<Rightarrow> pyfloat" where
  "sum_finite asks = (let finite = finite_asks asks in if finite \<noteq> [] then py_sum finite else NaN)"

type_synonym market_sum = "string \<times> nat \<times> pyfloat"

text \<open>The loop of lines 186 to 195.\<close>

fun market_results :: "price_map \<Rightarrow> by_market \<Rightarrow> error + market_sum list" where
  "market_results price_map [] = Inr []"
| "market_results price_map ((cond, tids) # rest) =
     (case market_asks price_map tids of
        Inl e \<Rightarrow> Inl e
      | Inr asks \<Rightarrow>
          (case market_results price_map rest of
             Inl e \<Rightarrow> Inl e
           | Inr results \<Rightarrow> Inr ((cond, length tids, sum_finite asks) # results)))"

subsection \<open>Ranking\<close>

text \<open>The key of line 197.\<close>

definition sort_key :: "market_sum \<Rightarrow> pyfloat" where
  "sort_key x = (if isnan (snd (snd x)) then PosInf else snd (snd x))"

text \<open>
  \<^verbatim>\<open>list.sort(key=...)\<close> compares keys with \<^verbatim>\<open><\<close> only and is stable. It is modelled by the
  stable insertion sort: an element goes before the first element whose key is not smaller
  than its own.
\<close>

fun insort_by :: "('a \<Rightarrow> pyfloat) \<Rightarrow> 'a \<Rightarrow> 'a list \<Rightarrow> 'a list" where
  "insort_by key x [] = [x]"
| "insort_by key x (y # ys) =
     (if flt (key y) (key x) then y # insort_by key x ys else x # y # ys)"

definition list_sort :: "('a \<Rightarrow> pyfloat) \<Rightarrow> 'a list \<Rightarrow> 'a list" where
  "list_sort key xs = foldr (insort_by key) xs []"

subsection \<open>\<^verbatim>\<open>sum_yes_by_market\<close>\<close>

definition sum_yes_by_market ::
  "price_server \<Rightarrow> token_row list \<Rightarrow> (error + market_sum list) \<times> request list" where
  "sum_yes_by_market srv tokens =
     (let groups = group_by_market tokens
      in case get_best_prices srv (all_token_ids groups) ''BUY'' 50 of
           (Inl e, sent) \<Rightarrow> (Inl e, sent)
         | (Inr price_map, sent) \<Rightarrow>
             (case market_results price_map groups of
                Inl e \<Rightarrow> (Inl e, sent)
              | Inr results \<Rightarrow> (Inr (list_sort sort_key results), sent)))"

section \<open>Notions of the specification\<close>

text \<open>
  A row is kept when its condition id is present and non-empty, its token id is present and
  non-empty, and its closed flag is falsy.
\<close>

definition keeps :: "token_row \<Rightarrow> bool" where
  "keeps t =
     ((\<exists>c. condition_id t = Some c \<and> c \<noteq> []) \<and> (\<exists>tid. token_id t = Some tid \<and> tid \<noteq> [])
      \<and> \<not> truthy (closed_flag t))"

text \<open>The pairs of market id and token id of the kept rows, in the order of the rows.\<close>

definition kept_pairs :: "token_row list \<Rightarrow> (string \<times> string) list" where
  "kept_pairs tokens = map (\<lambda>t. (the (condition_id t), the (token_id t))) (filter keeps tokens)"

text \<open>The token ids of the rows with a non-null token id and a closed flag that is not set.\<close>

definition live_token_ids :: "token_row list \<Rightarrow> string list" where
  "live_token_ids tokens =
     map (\<lambda>t. the (token_id t)) (filter (\<lambda>t. token_id t \<noteq> None \<and> \<not> truthy (closed_flag t)) tokens)"

text \<open>The token ids grouped under a market id, and all pairs of market id and token id of the groups.\<close>

definition group_of :: "by_market \<Rightarrow> string \<Rightarrow> string list" where
  "group_of groups cond = (case map_of groups cond of None \<Rightarrow> [] | Some tids \<Rightarrow> tids)"

definition entries :: "by_market \<Rightarrow> (string \<times> string) list" where
  "entries groups = concat (map (\<lambda>(c, tids). map (Pair c) tids) groups)"

text \<open>The items of a JSON value and of the body of a response, none when it is no object.\<close>

definition items_of :: "pyval \<Rightarrow> (string \<times> pyval) list" where
  "items_of js = (case js of PDict items \<Rightarrow> items | _ \<Rightarrow> [])"

definition response_items :: "response \<Rightarrow> (string \<times> pyval) list" where
  "response_items r = (case r of Response status (Some js) \<Rightarrow> items_of js | _ \<Rightarrow> [])"

text \<open>The first of the given fields that is present, that is, not null.\<close>

fun first_present :: "pyval list \<Rightarrow> pyval" where
  "first_present [] = PNone"
| "first_present (v # vs) = (if v \<noteq> PNone then v else first_present vs)"

section \<open>Example inputs\<close>

text \<open>A row with the given condition id, token id and closed flag.\<close>

definition example_row :: "string option \<Rightarrow> string option \<Rightarrow> pyval \<Rightarrow> token_row" where
  "example_row cond tid closed_val =
     \<lparr> condition_id = cond, active_flag = PBool True, closed_flag = closed_val, token_id = tid, label = PNone \<rparr>"

text \<open>
  A price endpoint that answers every request with the same quotes: each token id of the
  list with its \<^verbatim>\<open>BUY\<close> price string.
\<close>

definition quotes_server :: "(string \<times> string) list \<Rightarrow> price_server" where
  "quotes_server quotes hist req =
     Response 200 (Some (PDict (map (\<lambda>(tid, price). (tid, PDict [(''BUY'', PStr price)])) quotes)))"

text \<open>
  An order-book endpoint that does not know the token \<open>unknown\<close>, fails on the token
  \<open>broken\<close> and answers with a book for every other token.
\<close>

definition example_book_server :: book_server where
  "example_book_server tid =
     (if tid = ''unknown'' then Response 404 None
      else if tid = ''broken'' then Response 500 None
      else Response 200 (Some (PDict [(''asset_id'', PStr tid)])))"

text \<open>
  A price endpoint with one price for every token: it answers a request with the
  \<^verbatim>\<open>BUY\<close> quote of each token id of the request.
\<close>

definition flat_price_server :: "string \<Rightarrow> price_server" where
  "flat_price_server price hist req =
     Response 200 (Some (PDict (map (\<lambda>tid. (tid, PDict [(''BUY'', PStr price)])) (remdups (map fst req)))))"

text \<open>The builtin \<^verbatim>\<open>str\<close> on strings, which it returns as they are; the examples use no other value.\<close>

definition str_of_text :: "pyval \<Rightarrow> string" where
  "str_of_text v = (case v of PStr s \<Rightarrow> s | _ \<Rightarrow> [])"

section \<open>Grouping by market\<close>

lemma group_step_keeps:
  "group_step acc t =
     (if keeps t then setdefault_append (the (condition_id t)) (the (token_id t)) acc else acc)"
  by (auto simp: group_step_def keeps_def split: option.splits)

lemma group_of_setdefault_append:
  "group_of (setdefault_append c t g) c' = (if c' = c then group_of g c @ [t] else group_of g c')"
  by (induction c t g rule: setdefault_append.induct) (auto simp: group_of_def)

lemma keys_setdefault_append:
  "map fst (setdefault_append c t g) = (if c \<in> fst ` set g then map fst g else map fst g @ [c])"
  by (induction c t g rule: setdefault_append.induct) auto

lemma nonempty_setdefault_append:
  "\<forall>(c, tids) \<in> set g. tids \<noteq> [] \<Longrightarrow> \<forall>(c, tids) \<in> set (setdefault_append c t g). tids \<noteq> []"
  by (induction c t g rule: setdefault_append.induct) auto

lemma entries_setdefault_append:
  "mset (entries (setdefault_append c t g)) = mset (entries g) + {#(c, t)#}"
  by (induction c t g rule: setdefault_append.induct) (auto simp: entries_def)

lemma foldl_group_step_group_of:
  "group_of (foldl group_step acc tokens) c =
     group_of acc c @ map snd (filter (\<lambda>p. fst p = c) (kept_pairs tokens))"
  by (induction tokens arbitrary: acc)
     (auto simp: group_step_keeps group_of_setdefault_append kept_pairs_def)

lemma foldl_group_step_distinct:
  "distinct (map fst acc) \<Longrightarrow> distinct (map fst (foldl group_step acc tokens))"
  by (induction tokens arbitrary: acc) (auto simp: group_step_keeps keys_setdefault_append)

lemma foldl_group_step_nonempty:
  "\<forall>(c, tids) \<in> set acc. tids \<noteq> [] \<Longrightarrow> \<forall>(c, tids) \<in> set (foldl group_step acc tokens). tids \<noteq> []"
proof (induction tokens arbitrary: acc)
  case Nil
  then show ?case by simp
next
  case (Cons t ts)
  have "\<forall>(c, tids) \<in> set (group_step acc t). tids \<noteq> []"
    using Cons.prems nonempty_setdefault_append[of acc] by (simp add: group_step_keeps)
  then show ?case using Cons.IH by simp
qed

lemma foldl_group_step_entries:
  "mset (entries (foldl group_step acc tokens)) = mset (entries acc) + mset (kept_pairs tokens)"
  by (induction tokens arbitrary: acc)
     (auto simp: group_step_keeps entries_setdefault_append kept_pairs_def)

lemma all_token_ids_entries: "all_token_ids groups = map snd (entries groups)"
  by (induction groups) (auto simp: all_token_ids_def entries_def comp_def)

lemma entries_Nil: "entries [] = []"
  by (simp add: entries_def)

lemma group_of_Nil: "group_of [] c = []"
  by (simp add: group_of_def)

lemma group_by_market_entries: "mset (entries (group_by_market tokens)) = mset (kept_pairs tokens)"
  by (simp add: group_by_market_def foldl_group_step_entries entries_Nil)

lemma group_by_market_group_of:
  "group_of (group_by_market tokens) c = map snd (filter (\<lambda>p. fst p = c) (kept_pairs tokens))"
  by (simp add: group_by_market_def foldl_group_step_group_of group_of_Nil)

lemma group_by_market_distinct: "distinct (map fst (group_by_market tokens))"
  by (simp add: group_by_market_def foldl_group_step_distinct)

lemma group_by_market_nonempty: "(c, tids) \<in> set (group_by_market tokens) \<Longrightarrow> tids \<noteq> []"
  using foldl_group_step_nonempty[of "[]" tokens] by (auto simp: group_by_market_def)

lemma set_all_token_ids: "set (all_token_ids (group_by_market tokens)) = snd ` set (kept_pairs tokens)"
proof -
  have "set (entries (group_by_market tokens)) = set (kept_pairs tokens)"
    using group_by_market_entries[of tokens] by (metis set_mset_mset)
  then show ?thesis by (simp add: all_token_ids_entries)
qed

lemma kept_pairs_row: "p \<in> set (kept_pairs tokens) \<Longrightarrow>
   \<exists>t \<in> set tokens. keeps t \<and> condition_id t = Some (fst p) \<and> token_id t = Some (snd p)"
  by (auto simp: kept_pairs_def keeps_def)

lemma setdefault_append_neq: "setdefault_append c tid acc \<noteq> acc"
proof
  assume "setdefault_append c tid acc = acc"
  then have "mset (entries (setdefault_append c tid acc)) = mset (entries acc)" by simp
  then show False by (simp add: entries_setdefault_append)
qed

section \<open>Fetching prices\<close>

declare fetch_batches.simps [simp del]

lemma merge_response_items:
  "merge_response out js = foldl (\<lambda>acc (k, v). AList.update k v acc) out (items_of js)"
  by (cases js) (auto simp: merge_response_def items_of_def)

lemma map_of_foldl_update:
  "map_of (foldl (\<lambda>acc (k, v). AList.update k v acc) out items) = map_of out ++ map_of (rev items)"
  by (induction items arbitrary: out)
     (auto simp: update_conv' map_add_def fun_eq_iff split: option.splits)

lemma keys_foldl_update:
  "fst ` set (foldl (\<lambda>acc (k, v). AList.update k v acc) out items) = fst ` set out \<union> fst ` set items"
proof -
  have "dom (map_of (foldl (\<lambda>acc (k, v). AList.update k v acc) out items))
          = dom (map_of out) \<union> dom (map_of (rev items))"
    by (auto simp: map_of_foldl_update)
  then show ?thesis by (simp add: dom_map_of_conv_image_fst)
qed

lemma map_of_rev_distinct: "distinct (map fst items) \<Longrightarrow> map_of (rev items) = map_of items"
proof -
  assume d: "distinct (map fst items)"
  have "distinct (map fst (rev items))"
    using d by (metis distinct_rev rev_map)
  then show ?thesis
    using d by (simp add: map_of_inject_set)
qed

lemma restrict_map_add_Un: "(m ++ (f |` A)) ++ (f |` B) = m ++ (f |` (A \<union> B))"
  by (auto simp: map_add_def restrict_map_def fun_eq_iff split: option.splits)

lemma fetch_batches_sent:
  assumes "fetch_batches srv side n tids sent out = (Inr pm, sent')" "0 < n"
  shows "\<exists>new. sent' = sent @ new \<and> concat new = map (\<lambda>tid. (tid, side)) tids
           \<and> (\<forall>req \<in> set new. req \<noteq> [] \<and> length req \<le> n)
           \<and> fst ` set pm = fst ` set out \<union> (\<Union>i<length new. fst ` set (response_items (srv (sent @ take i new) (new ! i))))"
  using assms
proof (induction srv side n tids sent out rule: fetch_batches.induct)
  case (1 srv side n tids sent out)
  show ?case
  proof (cases "tids = []")
    case True
    with "1.prems" show ?thesis by (simp add: fetch_batches.simps)
  next
    case False
    define payload where "payload = map (\<lambda>tid. (tid, side)) (take n tids)"
    from "1.prems" False obtain status js where
      resp: "srv sent payload = Response status (Some js)" and ok: "\<not> is_error_status status"
      and rec: "fetch_batches srv side n (drop n tids) (sent @ [payload]) (merge_response out js) = (Inr pm, sent')"
      by (subst (asm) fetch_batches.simps)
         (auto simp: Let_def payload_def split: response.splits if_splits option.splits)
    from "1.IH"[OF _ refl refl refl resp[unfolded payload_def] ok refl, folded payload_def, OF _ rec] False "1.prems"(2)
    obtain new where new: "sent' = (sent @ [payload]) @ new"
      "concat new = map (\<lambda>tid. (tid, side)) (drop n tids)"
      "\<forall>req \<in> set new. req \<noteq> [] \<and> length req \<le> n"
      "fst ` set pm = fst ` set (merge_response out js) \<union>
         (\<Union>i<length new. fst ` set (response_items (srv ((sent @ [payload]) @ take i new) (new ! i))))"
      by auto
    have items: "response_items (srv sent payload) = items_of js"
      by (simp add: resp response_items_def)
    let ?new = "payload # new"
    have a: "sent' = sent @ ?new" using new(1) by simp
    have b: "concat ?new = map (\<lambda>tid. (tid, side)) tids"
      using new(2) by (simp add: payload_def flip: map_append)
    have c: "\<forall>req \<in> set ?new. req \<noteq> [] \<and> length req \<le> n"
      using new(3) False "1.prems"(2) by (auto simp: payload_def)
    have split: "{..<length ?new} = insert 0 (Suc ` {..<length new})"
      by (auto simp: lessThan_Suc_eq_insert_0)
    have d: "fst ` set pm = fst ` set out \<union>
         (\<Union>i<length ?new. fst ` set (response_items (srv (sent @ take i ?new) (?new ! i))))"
      unfolding split new(4)
      by (simp add: items merge_response_items keys_foldl_update Un_assoc)
    from a b c d show ?thesis by blast
  qed
qed


lemma fetch_batches_oracle:
  assumes "\<forall>hist req. \<exists>status items. srv hist req = Response status (Some (PDict items))
                   \<and> \<not> is_error_status status \<and> distinct (map fst items)
                   \<and> map_of items = oracle |` (fst ` set req)"
    and "0 < n"
  shows "\<exists>pm sent'. fetch_batches srv side n tids sent out = (Inr pm, sent')
           \<and> map_of pm = map_of out ++ (oracle |` set tids)"
  using assms
proof (induction srv side n tids sent out rule: fetch_batches.induct)
  case (1 srv side n tids sent out)
  show ?case
  proof (cases "tids = []")
    case True
    then show ?thesis by (simp add: fetch_batches.simps)
  next
    case False
    define payload where "payload = map (\<lambda>tid. (tid, side)) (take n tids)"
    from "1.prems"(1) obtain status items where
      resp: "srv sent payload = Response status (Some (PDict items))" and ok: "\<not> is_error_status status"
      and dist: "distinct (map fst items)" and orc: "map_of items = oracle |` (fst ` set payload)"
      by blast
    have keys: "fst ` set payload = set (take n tids)"
      by (force simp: payload_def)
    have unfold: "fetch_batches srv side n tids sent out =
        fetch_batches srv side n (drop n tids) (sent @ [payload]) (merge_response out (PDict items))"
      using False "1.prems"(2) resp ok
      by (subst fetch_batches.simps) (simp add: Let_def payload_def)
    from "1.IH"[OF _ refl refl refl resp[unfolded payload_def] ok refl "1.prems", folded payload_def] False "1.prems"(2)
    obtain pm sent' where rec:
      "fetch_batches srv side n (drop n tids) (sent @ [payload]) (merge_response out (PDict items)) = (Inr pm, sent')"
      "map_of pm = map_of (merge_response out (PDict items)) ++ (oracle |` set (drop n tids))"
      by auto
    have "map_of (merge_response out (PDict items)) = map_of out ++ (oracle |` set (take n tids))"
      by (simp add: merge_response_items items_of_def map_of_foldl_update map_of_rev_distinct dist orc keys)
    then have "map_of pm = map_of out ++ (oracle |` (set (take n tids) \<union> set (drop n tids)))"
      using rec(2) by (simp add: restrict_map_add_Un)
    moreover have "set (take n tids) \<union> set (drop n tids) = set tids"
      by (metis append_take_drop_id set_append)
    ultimately show ?thesis using rec(1) unfold by simp
  qed
qed

lemma get_best_prices_oracle:
  assumes "\<forall>hist req. \<exists>status items. srv hist req = Response status (Some (PDict items))
                   \<and> \<not> is_error_status status \<and> distinct (map fst items)
                   \<and> map_of items = oracle |` (fst ` set req)"
    and "0 < batch_size"
  shows "\<exists>pm sent. get_best_prices srv tids side batch_size = (Inr pm, sent)
           \<and> map_of pm = oracle |` set tids"
proof (cases "tids = []")
  case True
  then show ?thesis by (simp add: get_best_prices_def)
next
  case False
  from fetch_batches_oracle[OF assms(1), of "nat batch_size" side tids "[]" "[]"] assms(2)
  show ?thesis using False by (simp add: get_best_prices_def)
qed


lemma get_best_prices_sent:
  assumes "get_best_prices srv tids side batch_size = (Inr pm, sent)" "0 < batch_size"
  shows "concat sent = map (\<lambda>tid. (tid, side)) tids
           \<and> (\<forall>req \<in> set sent. req \<noteq> [] \<and> int (length req) \<le> batch_size)
           \<and> fst ` set pm = (\<Union>i<length sent. fst ` set (response_items (srv (take i sent) (sent ! i))))"
proof (cases "tids = []")
  case True
  with assms show ?thesis by (auto simp: get_best_prices_def)
next
  case False
  with assms have "fetch_batches srv side (nat batch_size) tids [] [] = (Inr pm, sent)"
    by (simp add: get_best_prices_def)
  from fetch_batches_sent[OF this] assms(2) show ?thesis by auto
qed

lemma fetch_batches_requests:
  "fetch_batches srv side n tids sent out = (r, sent') \<Longrightarrow>
     \<exists>new. sent' = sent @ new \<and> (\<forall>req \<in> set new. fst ` set req \<subseteq> set tids)"
proof (induction srv side n tids sent out rule: fetch_batches.induct)
  case (1 srv side n tids sent out)
  show ?case
  proof (cases "tids = [] \<or> n = 0")
    case True
    with "1.prems" show ?thesis by (auto simp: fetch_batches.simps)
  next
    case False
    define payload where "payload = map (\<lambda>tid. (tid, side)) (take n tids)"
    have sub: "fst ` set payload \<subseteq> set tids"
      by (auto simp: payload_def dest: in_set_takeD)
    show ?thesis
    proof (cases "\<exists>status js. srv sent payload = Response status (Some js) \<and> \<not> is_error_status status")
      case True
      then obtain status js where resp: "srv sent payload = Response status (Some js)"
        and ok: "\<not> is_error_status status" by blast
      have rec: "fetch_batches srv side n (drop n tids) (sent @ [payload]) (merge_response out js) = (r, sent')"
        using "1.prems" False resp ok
        by (subst (asm) fetch_batches.simps) (simp add: Let_def payload_def)
      from "1.IH"[OF False refl refl refl resp[unfolded payload_def] ok refl, folded payload_def, OF rec]
      obtain new where "sent' = (sent @ [payload]) @ new" "\<forall>req \<in> set new. fst ` set req \<subseteq> set (drop n tids)"
        by blast
      then have "sent' = sent @ (payload # new)" "\<forall>req \<in> set (payload # new). fst ` set req \<subseteq> set tids"
        using sub by (auto dest: in_set_dropD)
      then show ?thesis by blast
    next
      case no: False
      have "sent' = sent @ [payload]"
        using "1.prems" False no
        by (subst (asm) fetch_batches.simps)
           (auto simp: Let_def payload_def split: response.splits option.splits if_splits)
      then show ?thesis using sub by auto
    qed
  qed
qed

lemma get_best_prices_requests:
  "get_best_prices srv tids side batch_size = (r, sent) \<Longrightarrow> \<forall>req \<in> set sent. fst ` set req \<subseteq> set tids"
  using fetch_batches_requests[of srv side "nat batch_size" tids "[]" "[]" r sent]
  by (auto simp: get_best_prices_def split: if_splits)

lemma get_best_prices_one_batch:
  assumes "tids \<noteq> []" "int (length tids) \<le> n"
    "srv [] (map (\<lambda>t. (t, side)) tids) = Response status (Some js)" "\<not> is_error_status status"
  shows "get_best_prices srv tids side n = (Inr (merge_response [] js), [map (\<lambda>t. (t, side)) tids])"
proof -
  from assms(1,2) have n: "0 < n" "length tids \<le> nat n" by (cases tids; simp)+
  then have "take (nat n) tids = tids" "drop (nat n) tids = []" by simp_all
  with assms n show ?thesis
    by (simp add: get_best_prices_def fetch_batches.simps[of _ _ _ tids] fetch_batches.simps[of _ _ _ "[]"] Let_def)
qed

section \<open>Summing and ranking\<close>

lemma to_float_Inr: "\<exists>f. to_float x = Inr f"
  by (simp add: to_float_def split: sum.splits)

lemma market_asks_Inr:
  "market_asks pm tids = Inr asks \<Longrightarrow> map (lookup_ask pm) tids = map Inr asks"
  by (induction tids arbitrary: asks) (auto split: sum.splits)

lemma market_results_Inr:
  "market_results pm groups = Inr results \<Longrightarrow>
     list_all2 (\<lambda>g r. \<exists>asks. market_asks pm (snd g) = Inr asks
                        \<and> r = (fst g, length (snd g), sum_finite asks)) groups results"
  by (induction pm groups arbitrary: results rule: market_results.induct) (auto split: sum.splits)

lemma sum_yes_by_market_Inr:
  assumes "sum_yes_by_market srv tokens = (Inr results, sent)"
  shows "\<exists>pm unsorted.
           get_best_prices srv (all_token_ids (group_by_market tokens)) ''BUY'' 50 = (Inr pm, sent)
           \<and> market_results pm (group_by_market tokens) = Inr unsorted
           \<and> results = list_sort sort_key unsorted"
  using assms by (auto simp: sum_yes_by_market_def Let_def split: prod.splits sum.splits)

lemma lookup_ask_dict:
  assumes "\<forall>sides. map_of pm tid = Some sides \<longrightarrow> (\<exists>kvs. sides = PDict kvs)"
  shows "\<exists>a. lookup_ask pm tid = Inr a"
proof (cases "map_of pm tid")
  case None
  then show ?thesis using to_float_Inr[of PNone] by (simp add: lookup_ask_def)
next
  case (Some sides)
  with assms obtain kvs where "sides = PDict kvs" by auto
  with Some show ?thesis using to_float_Inr[of "dict_get kvs ''BUY''"] by (simp add: lookup_ask_def)
qed

lemma market_asks_dict:
  assumes "\<forall>tid sides. map_of pm tid = Some sides \<longrightarrow> (\<exists>kvs. sides = PDict kvs)"
  shows "\<exists>asks. market_asks pm tids = Inr asks"
proof (induction tids)
  case Nil
  then show ?case by simp
next
  case (Cons tid tids)
  from assms obtain a where "lookup_ask pm tid = Inr a"
    using lookup_ask_dict[of pm tid] by blast
  with Cons show ?case by auto
qed

lemma market_results_dict:
  assumes "\<forall>tid sides. map_of pm tid = Some sides \<longrightarrow> (\<exists>kvs. sides = PDict kvs)"
  shows "\<exists>results. market_results pm groups = Inr results"
proof (induction groups)
  case Nil
  then show ?case by simp
next
  case (Cons g groups)
  obtain c tids where g: "g = (c, tids)" by (cases g)
  from market_asks_dict[OF assms, of tids] obtain asks where "market_asks pm tids = Inr asks" by blast
  with Cons g show ?case by auto
qed

lemma length_market_results:
  "market_results pm groups = Inr results \<Longrightarrow> length results = length groups"
  by (drule market_results_Inr) (simp add: list_all2_lengthD)


lemma flt_irrefl: "\<not> flt a a"
  by (cases a) auto

lemma flt_trans: "flt a b \<Longrightarrow> flt b c \<Longrightarrow> flt a c"
  by (cases a; cases b; cases c) auto

lemma flt_total: "\<not> isnan a \<Longrightarrow> \<not> isnan b \<Longrightarrow> flt a b \<or> a = b \<or> flt b a"
  by (cases a; cases b) auto

lemma not_flt_trans:
  "\<not> isnan a \<Longrightarrow> \<not> isnan b \<Longrightarrow> \<not> isnan c \<Longrightarrow> \<not> flt b a \<Longrightarrow> \<not> flt c b \<Longrightarrow> \<not> flt c a"
  by (cases a; cases b; cases c) auto

lemma sort_key_not_nan: "\<not> isnan (sort_key x)"
  by (cases "snd (snd x)") (auto simp: sort_key_def)

lemma mset_insort_by: "mset (insort_by key x ys) = add_mset x (mset ys)"
  by (induction ys) auto

lemma mset_list_sort: "mset (list_sort key xs) = mset xs"
  by (induction xs) (auto simp: list_sort_def mset_insort_by)

lemma set_insort_by: "set (insort_by key x ys) = insert x (set ys)"
  by (induction ys) auto

lemma set_list_sort: "set (list_sort key xs) = set xs"
  by (induction xs) (auto simp: list_sort_def set_insort_by)

lemma length_list_sort: "length (list_sort key xs) = length xs"
  by (metis mset_list_sort size_mset)

lemma sorted_insort_by:
  assumes "\<forall>y. \<not> isnan (key y)" "sorted_wrt (\<lambda>a b. \<not> flt (key b) (key a)) ys"
  shows "sorted_wrt (\<lambda>a b. \<not> flt (key b) (key a)) (insort_by key x ys)"
  using assms(2)
proof (induction ys)
  case Nil
  then show ?case by simp
next
  case (Cons y ys)
  show ?case
  proof (cases "flt (key y) (key x)")
    case True
    then have "\<not> flt (key x) (key y)"
      using flt_trans flt_irrefl by blast
    with True Cons show ?thesis
      by (auto simp: set_insort_by)
  next
    case False
    have "\<forall>z \<in> set ys. \<not> flt (key z) (key x)"
      using False Cons.prems assms(1) not_flt_trans[of "key x" "key y"] by auto
    with False Cons.prems show ?thesis by auto
  qed
qed

lemma sorted_list_sort:
  assumes "\<forall>y. \<not> isnan (key y)"
  shows "sorted_wrt (\<lambda>a b. \<not> flt (key b) (key a)) (list_sort key xs)"
  by (induction xs) (auto simp: list_sort_def intro: sorted_insort_by[OF assms])

lemma filter_insort_by:
  assumes "\<forall>y. \<not> isnan (key y)" "sorted_wrt (\<lambda>a b. \<not> flt (key b) (key a)) ys"
  shows "filter (\<lambda>y. key y = k) (insort_by key x ys) =
           (if key x = k then x # filter (\<lambda>y. key y = k) ys else filter (\<lambda>y. key y = k) ys)"
  using assms(2)
proof (induction ys)
  case Nil
  then show ?case by simp
next
  case (Cons y ys)
  show ?case
  proof (cases "flt (key y) (key x)")
    case True
    then have "key y \<noteq> key x" using flt_irrefl by metis
    with True Cons show ?thesis by auto
  next
    case False
    then show ?thesis by simp
  qed
qed

lemma filter_list_sort:
  assumes "\<forall>y. \<not> isnan (key y)"
  shows "filter (\<lambda>y. key y = k) (list_sort key xs) = filter (\<lambda>y. key y = k) xs"
proof (induction xs)
  case Nil
  then show ?case by (simp add: list_sort_def)
next
  case (Cons x xs)
  have "list_sort key (x # xs) = insort_by key x (list_sort key xs)"
    by (simp add: list_sort_def)
  then show ?case
    using Cons filter_insort_by[OF assms sorted_list_sort[OF assms], of k x xs] by simp
qed


lemma snd_sum_yes_by_market:
  "snd (sum_yes_by_market srv tokens) =
     snd (get_best_prices srv (all_token_ids (group_by_market tokens)) ''BUY'' 50)"
  by (auto simp: sum_yes_by_market_def Let_def split: prod.splits sum.splits)

lemma example_requests:
  "snd (sum_yes_by_market (quotes_server q)
     [example_row (Some ''M1'') (Some ''T1'') (PBool False),
      example_row None (Some ''T2'') (PBool False),
      example_row (Some ''M1'') (Some ''T3'') PNone]) = [[(''T1'', ''BUY''), (''T3'', ''BUY'')]]"
proof -
  have g: "group_by_market [example_row (Some ''M1'') (Some ''T1'') (PBool False),
      example_row None (Some ''T2'') (PBool False),
      example_row (Some ''M1'') (Some ''T3'') PNone] = [(''M1'', [''T1'', ''T3''])]"
    by (simp add: group_by_market_def group_step_def example_row_def)
  show ?thesis
    unfolding snd_sum_yes_by_market g
    by (subst get_best_prices_one_batch[where status = 200])
       (simp_all add: all_token_ids_def quotes_server_def is_error_status_def)
qed

lemma market_results_counts:
  "market_results pm groups = Inr results \<Longrightarrow>
     map (\<lambda>r. (fst r, fst (snd r))) results = map (\<lambda>g. (fst g, length (snd g))) groups"
  by (induction pm groups arbitrary: results rule: market_results.induct) (auto split: sum.splits)

lemma example_groups:
  "group_by_market [example_row (Some ''M1'') (Some ''T1'') (PBool False),
      example_row None (Some ''T2'') (PBool False),
      example_row (Some ''M1'') (Some ''T3'') PNone] = [(''M1'', [''T1'', ''T3''])]"
  by (simp add: group_by_market_def group_step_def example_row_def)

lemma example_no_quotes:
  "sum_yes_by_market (quotes_server [])
     [example_row (Some ''M1'') (Some ''T1'') (PBool False),
      example_row None (Some ''T2'') (PBool False),
      example_row (Some ''M1'') (Some ''T3'') PNone]
   = (Inr [(''M1'', 2, NaN)], [[(''T1'', ''BUY''), (''T3'', ''BUY'')]])"
proof -
  have p: "get_best_prices (quotes_server []) [''T1'', ''T3''] ''BUY'' 50
             = (Inr [], [[(''T1'', ''BUY''), (''T3'', ''BUY'')]])"
    by (subst get_best_prices_one_batch[where status = 200 and js = "PDict []"])
       (simp_all add: quotes_server_def is_error_status_def merge_response_def)
  show ?thesis
    unfolding sum_yes_by_market_def example_groups Let_def
    by (simp add: all_token_ids_def p lookup_ask_def to_float_def sum_finite_def finite_asks_def
          list_sort_def)
qed

section \<open>Evaluating floats\<close>

lemma round_double_positive:
  assumes "0 < r" "ilog2 r = e" "max (e - 52) (- 1074) = q" "round_half_even (r / pow2 q) = m"
    "real_of_int m * pow2 q = v" "v < pow2 1024"
  shows "round_double r = Fin v"
  using assms by (simp add: round_double_def Let_def)

lemmas float_eval = ilog2_def bit_length.simps pow2_def round_half_even_def

lemma double_045: "round_double (45 / 100) = Fin (8106479329266893 / 18014398509481984)"
  by (rule round_double_positive[where e = "- 2" and q = "- 54" and m = 8106479329266893])
     (simp_all add: float_eval)

lemma double_052: "round_double (52 / 100) = Fin (1170935903116329 / 2251799813685248)"
  by (rule round_double_positive[where e = "- 1" and q = "- 53" and m = 4683743612465316])
     (simp_all add: float_eval)

lemma double_097: "round_double (97 / 100) = Fin (4368491638549381 / 4503599627370496)"
  by (rule round_double_positive[where e = "- 1" and q = "- 53" and m = 8736983277098762])
     (simp_all add: float_eval)

lemma fadd_zero_045:
  "fadd (Fin 0) (Fin (8106479329266893 / 18014398509481984)) = Fin (8106479329266893 / 18014398509481984)"
  unfolding fadd.simps add_0
  by (rule round_double_positive[where e = "- 2" and q = "- 54" and m = 8106479329266893])
     (simp_all add: float_eval)

lemma fadd_045_052:
  "fadd (Fin (8106479329266893 / 18014398509481984)) (Fin (1170935903116329 / 2251799813685248))
     = Fin (4368491638549381 / 4503599627370496)"
  unfolding fadd.simps
  by (rule round_double_positive[where e = "- 1" and q = "- 53" and m = 8736983277098762])
     (simp_all add: float_eval)

lemma fadd_zero_half: "fadd (Fin 0) (Fin (1 / 2)) = Fin (1 / 2)"
  unfolding fadd.simps add_0
  by (rule round_double_positive[where e = "- 1" and q = "- 53" and m = 4503599627370496])
     (simp_all add: float_eval)

lemma double_half: "round_double (1 / 2) = Fin (1 / 2)"
  by (rule round_double_positive[where e = "- 1" and q = "- 53" and m = 4503599627370496])
     (simp_all add: float_eval)

lemmas parse_eval = float_of_str_def strip_def is_space_def is_digit_def digit_val_def lower_def
  number_def digitpart_def exponent_def digits_value_def pow10_def Let_def

lemma float_of_str_045: "float_of_str ''0.45'' = Some (round_double (45 / 100))"
  by (simp add: parse_eval)

lemma float_of_str_052: "float_of_str ''0.52'' = Some (round_double (52 / 100))"
  by (simp add: parse_eval)

lemma float_of_str_05: "float_of_str ''0.5'' = Some (round_double (1 / 2))"
  by (simp add: parse_eval)

lemma float_of_str_abc: "float_of_str ''abc'' = None"
  by (simp add: parse_eval)

lemma py_sum_045_052:
  "py_sum [Fin (8106479329266893 / 18014398509481984), Fin (1170935903116329 / 2251799813685248)]
     = Fin (4368491638549381 / 4503599627370496)"
  by (simp only: py_sum_def foldl.simps fadd_zero_045 fadd_045_052)

section \<open>Evaluated examples\<close>

lemma list_all2_in_set:
  "list_all2 P xs ys \<Longrightarrow> x \<in> set xs \<Longrightarrow> \<exists>y \<in> set ys. P x y"
  by (induction rule: list_all2_induct) auto

lemma example_ranked_groups:
  "group_by_market [example_row (Some ''M2'') (Some ''T5'') PNone,
      example_row (Some ''M1'') (Some ''T1'') (PBool False),
      example_row (Some ''M1'') (Some ''T3'') (PBool False)]
   = [(''M2'', [''T5'']), (''M1'', [''T1'', ''T3''])]"
  by (simp add: group_by_market_def group_step_def example_row_def)

lemma example_ranked_prices:
  "get_best_prices (quotes_server [(''T1'', ''0.5'')]) [''T5'', ''T1'', ''T3''] ''BUY'' 50
     = (Inr [(''T1'', PDict [(''BUY'', PStr ''0.5'')])], [[(''T5'', ''BUY''), (''T1'', ''BUY''), (''T3'', ''BUY'')]])"
  by (subst get_best_prices_one_batch[where status = 200
        and js = "PDict [(''T1'', PDict [(''BUY'', PStr ''0.5'')])]"])
     (simp_all add: quotes_server_def is_error_status_def merge_response_def)

lemma example_ranked_asks:
  "lookup_ask [(''T1'', PDict [(''BUY'', PStr ''0.5'')])] ''T1'' = Inr (Fin (1 / 2))"
  "lookup_ask [(''T1'', PDict [(''BUY'', PStr ''0.5'')])] ''T3'' = Inr NaN"
  "lookup_ask [(''T1'', PDict [(''BUY'', PStr ''0.5'')])] ''T5'' = Inr NaN"
  by (simp_all add: lookup_ask_def dict_get_def to_float_def float_of_str_05 double_half)

lemma example_ranked:
  "sum_yes_by_market (quotes_server [(''T1'', ''0.5'')])
     [example_row (Some ''M2'') (Some ''T5'') PNone,
      example_row (Some ''M1'') (Some ''T1'') (PBool False),
      example_row (Some ''M1'') (Some ''T3'') (PBool False)]
   = (Inr [(''M1'', 2, Fin (1 / 2)), (''M2'', 1, NaN)],
      [[(''T5'', ''BUY''), (''T1'', ''BUY''), (''T3'', ''BUY'')]])"
  unfolding sum_yes_by_market_def example_ranked_groups Let_def
  by (simp add: all_token_ids_def example_ranked_prices example_ranked_asks sum_finite_def
        finite_asks_def py_sum_def double_half list_sort_def sort_key_def)

lemma double_092: "round_double (92 / 100) = Fin (8286623314361713 / 9007199254740992)"
  by (rule round_double_positive[where e = "- 1" and q = "- 53" and m = 8286623314361713])
     (simp_all add: float_eval)

lemma double_105: "round_double (105 / 100) = Fin (4728779608739021 / 4503599627370496)"
  by (rule round_double_positive[where e = "0" and q = "- 52" and m = 4728779608739021])
     (simp_all add: float_eval)

lemma example_sort:
  "list_sort sort_key
     [(''A'', 1, round_double (92 / 100)), (''B'', 1, NaN),
      (''C'', 1, round_double (105 / 100)), (''D'', 1, round_double (1 / 2))]
   = [(''D'', 1, round_double (1 / 2)), (''A'', 1, round_double (92 / 100)),
      (''C'', 1, round_double (105 / 100)), (''B'', 1, NaN)]"
  unfolding double_092 double_105 double_half
  by (simp add: list_sort_def sort_key_def)

lemma lookup_ask_quote:
  "map_of price_map tid = Some (PDict kvs) \<Longrightarrow> lookup_ask price_map tid = to_float (dict_get kvs ''BUY'')"
  by (simp add: lookup_ask_def)

lemma to_float_045: "to_float (PStr ''0.45'') = Inr (Fin (8106479329266893 / 18014398509481984))"
  unfolding to_float_def py_float.simps float_of_str_045 double_045 by simp

lemma to_float_052: "to_float (PStr ''0.52'') = Inr (Fin (1170935903116329 / 2251799813685248))"
  unfolding to_float_def py_float.simps float_of_str_052 double_052 by simp

lemma float_of_str_097: "float_of_str ''0.97'' = Some (round_double (97 / 100))"
  by (simp add: parse_eval)

lemma example_end_to_end_prices:
  "get_best_prices (quotes_server [(''T1'', ''0.45''), (''T2'', ''0.52'')]) [''T1'', ''T2''] ''BUY'' 50
     = (Inr [(''T1'', PDict [(''BUY'', PStr ''0.45'')]), (''T2'', PDict [(''BUY'', PStr ''0.52'')])],
        [[(''T1'', ''BUY''), (''T2'', ''BUY'')]])"
  by (subst get_best_prices_one_batch[where status = 200
        and js = "PDict [(''T1'', PDict [(''BUY'', PStr ''0.45'')]), (''T2'', PDict [(''BUY'', PStr ''0.52'')])]"])
     (simp_all add: quotes_server_def is_error_status_def merge_response_def)

lemma example_malformed_prices:
  "get_best_prices (quotes_server [(''T1'', ''abc'')]) [''T5'', ''T1'', ''T3''] ''BUY'' 50
     = (Inr [(''T1'', PDict [(''BUY'', PStr ''abc'')])], [[(''T5'', ''BUY''), (''T1'', ''BUY''), (''T3'', ''BUY'')]])"
  by (subst get_best_prices_one_batch[where status = 200
        and js = "PDict [(''T1'', PDict [(''BUY'', PStr ''abc'')])]"])
     (simp_all add: quotes_server_def is_error_status_def merge_response_def)

lemma flat_price_server_oracle:
  "\<forall>hist req. \<exists>status items. flat_price_server price hist req = Response status (Some (PDict items))
       \<and> \<not> is_error_status status \<and> distinct (map fst items)
       \<and> map_of items = (\<lambda>tid. Some (PDict [(''BUY'', PStr price)])) |` (fst ` set req)"
proof (intro allI)
  fix hist :: "request list" and req :: request
  let ?items = "map (\<lambda>tid. (tid, PDict [(''BUY'', PStr price)])) (remdups (map fst req))"
  have "map fst ?items = remdups (map fst req)"
    by (simp add: comp_def)
  then have d: "distinct (map fst ?items)"
    by simp
  have "map_of ?items = (Some \<circ> (\<lambda>tid. PDict [(''BUY'', PStr price)])) |` set (remdups (map fst req))"
    by (rule map_of_map_restrict)
  then have m: "map_of ?items = (\<lambda>tid. Some (PDict [(''BUY'', PStr price)])) |` (fst ` set req)"
    by (simp add: comp_def)
  show "\<exists>status items. flat_price_server price hist req = Response status (Some (PDict items))
       \<and> \<not> is_error_status status \<and> distinct (map fst items)
       \<and> map_of items = (\<lambda>tid. Some (PDict [(''BUY'', PStr price)])) |` (fst ` set req)"
    using d m by (auto simp: flat_price_server_def is_error_status_def)
qed

lemma example_batches_of_two:
  "get_best_prices (flat_price_server ''0.5'') [''a'', ''b'', ''c'', ''d'', ''e''] ''BUY'' 2
     = (Inr [(''a'', PDict [(''BUY'', PStr ''0.5'')]), (''b'', PDict [(''BUY'', PStr ''0.5'')]),
             (''c'', PDict [(''BUY'', PStr ''0.5'')]), (''d'', PDict [(''BUY'', PStr ''0.5'')]),
             (''e'', PDict [(''BUY'', PStr ''0.5'')])],
        [[(''a'', ''BUY''), (''b'', ''BUY'')], [(''c'', ''BUY''), (''d'', ''BUY'')], [(''e'', ''BUY'')]])"
  by (simp add: get_best_prices_def fetch_batches.simps flat_price_server_def Let_def
        is_error_status_def merge_response_def)

lemma example_batch_of_fifty:
  "get_best_prices (flat_price_server ''0.5'') [''a'', ''b'', ''c'', ''d'', ''e''] ''BUY'' 50
     = (Inr [(''a'', PDict [(''BUY'', PStr ''0.5'')]), (''b'', PDict [(''BUY'', PStr ''0.5'')]),
             (''c'', PDict [(''BUY'', PStr ''0.5'')]), (''d'', PDict [(''BUY'', PStr ''0.5'')]),
             (''e'', PDict [(''BUY'', PStr ''0.5'')])],
        [[(''a'', ''BUY''), (''b'', ''BUY''), (''c'', ''BUY''), (''d'', ''BUY''), (''e'', ''BUY'')]])"
  by (simp add: get_best_prices_def fetch_batches.simps flat_price_server_def Let_def
        is_error_status_def merge_response_def)

section \<open>The claims\<close>

text \<open>
  C10: for the empty list of token ids, whatever the side and the batch size,
  \<^verbatim>\<open>get_best_prices\<close> returns the empty mapping and sends no request to the price endpoint.
\<close>

theorem get_best_prices_empty_no_request:
  "get_best_prices srv [] side batch_size = (Inr [], [])"
  by (simp add: get_best_prices_def)

text \<open>
  C9: \<^verbatim>\<open>sum_yes_by_market\<close> keeps a row if and only if its condition id is present and
  truthy, its token id is present and truthy and its closed flag is falsy. A kept row adds
  its token id to the group of its condition id. A row with a null or an empty condition
  id is dropped whatever its token id and closed flag are, and a row whose closed flag is
  absent or null is kept when both ids are truthy. The groups hold exactly the pairs of
  the kept rows, and every token id sent to the price endpoint is the token id of a kept row.
\<close>

theorem sum_yes_by_market_keeps_row:
  "(group_step acc t \<noteq> acc) = keeps t
   \<and> (keeps t \<longrightarrow> group_step acc t = setdefault_append (the (condition_id t)) (the (token_id t)) acc)
   \<and> (condition_id t' = None \<or> condition_id t' = Some [] \<longrightarrow> group_step acc t' = acc)
   \<and> (closed_flag t'' = PNone \<and> condition_id t'' = Some c \<and> c \<noteq> [] \<and> token_id t'' = Some tid \<and> tid \<noteq> []
        \<longrightarrow> group_step acc t'' = setdefault_append c tid acc)
   \<and> mset (entries (group_by_market tokens)) = mset (kept_pairs tokens)
   \<and> (\<forall>req \<in> set (snd (sum_yes_by_market srv tokens)). \<forall>tid' \<in> fst ` set req.
         \<exists>r \<in> set tokens. keeps r \<and> token_id r = Some tid')"
proof -
  have a: "(group_step acc t \<noteq> acc) = keeps t"
    by (simp add: group_step_keeps setdefault_append_neq)
  have b: "keeps t \<longrightarrow> group_step acc t = setdefault_append (the (condition_id t)) (the (token_id t)) acc"
    by (simp add: group_step_keeps)
  have c: "condition_id t' = None \<or> condition_id t' = Some [] \<longrightarrow> group_step acc t' = acc"
    by (auto simp: group_step_def)
  have d: "closed_flag t'' = PNone \<and> condition_id t'' = Some c \<and> c \<noteq> [] \<and> token_id t'' = Some tid \<and> tid \<noteq> []
        \<longrightarrow> group_step acc t'' = setdefault_append c tid acc"
    by (auto simp: group_step_def)
  have e: "\<forall>req \<in> set (snd (sum_yes_by_market srv tokens)). \<forall>tid' \<in> fst ` set req.
         \<exists>r \<in> set tokens. keeps r \<and> token_id r = Some tid'"
  proof (intro ballI)
    fix req tid'
    assume req: "req \<in> set (snd (sum_yes_by_market srv tokens))" and tid': "tid' \<in> fst ` set req"
    obtain r sent where g: "get_best_prices srv (all_token_ids (group_by_market tokens)) ''BUY'' 50 = (r, sent)"
      by (cases "get_best_prices srv (all_token_ids (group_by_market tokens)) ''BUY'' 50")
    with req have "req \<in> set sent" by (simp add: snd_sum_yes_by_market)
    with get_best_prices_requests[OF g] tid' have "tid' \<in> set (all_token_ids (group_by_market tokens))"
      by blast
    then obtain p where "p \<in> set (kept_pairs tokens)" "snd p = tid'"
      by (auto simp: set_all_token_ids)
    with kept_pairs_row[of p tokens] show "\<exists>r \<in> set tokens. keeps r \<and> token_id r = Some tid'"
      by auto
  qed
  from a b c d e group_by_market_entries[of tokens] show ?thesis by blast
qed


theorem sum_yes_by_market_keeps_row_witness:
  "keeps (example_row (Some ''M1'') (Some ''T1'') (PBool False))
   \<and> group_step [] (example_row (Some ''M1'') (Some ''T1'') (PBool False)) = [(''M1'', [''T1''])]
   \<and> condition_id (example_row None (Some ''T2'') (PBool False)) = None
   \<and> group_step [] (example_row None (Some ''T2'') (PBool False)) = []
   \<and> closed_flag (example_row (Some ''M1'') (Some ''T3'') PNone) = PNone
   \<and> group_step [] (example_row (Some ''M1'') (Some ''T3'') PNone) = [(''M1'', [''T3''])]
   \<and> snd (sum_yes_by_market (quotes_server [])
          [example_row (Some ''M1'') (Some ''T1'') (PBool False),
           example_row None (Some ''T2'') (PBool False),
           example_row (Some ''M1'') (Some ''T3'') PNone]) = [[(''T1'', ''BUY''), (''T3'', ''BUY'')]]
   \<and> (\<exists>r \<in> set [example_row (Some ''M1'') (Some ''T1'') (PBool False),
                   example_row None (Some ''T2'') (PBool False),
                   example_row (Some ''M1'') (Some ''T3'') PNone]. keeps r \<and> token_id r = Some ''T3'')"
  using sum_yes_by_market_keeps_row[of "[]" "example_row (Some ''M1'') (Some ''T1'') (PBool False)"
      "example_row None (Some ''T2'') (PBool False)" "example_row (Some ''M1'') (Some ''T3'') PNone"
      "''M1''" "''T3''"
      "[example_row (Some ''M1'') (Some ''T1'') (PBool False),
        example_row None (Some ''T2'') (PBool False),
        example_row (Some ''M1'') (Some ''T3'') PNone]" "quotes_server []"]
  unfolding example_requests
  by (simp add: example_row_def keeps_def)

text \<open>
  C1, as the specification states it: the union of the token ids of all groups is the set
  of the input token ids with a non-null id and a closed flag that is not set. It fails on
  a row without a condition id: the row has a token id and is not closed, and no group
  holds it.
\<close>

theorem group_by_market_live_ids_counterexample:
  "set (all_token_ids (group_by_market [example_row None (Some ''T1'') (PBool False)]))
     \<noteq> set (live_token_ids [example_row None (Some ''T1'') (PBool False)])"
  by (simp add: group_by_market_def group_step_def example_row_def all_token_ids_def live_token_ids_def)

text \<open>
  C1, amended: \<^verbatim>\<open>sum_yes_by_market\<close> groups strictly by market id. The union of the token
  ids of all groups is the set of the token ids of the kept rows (non-empty condition id,
  non-empty token id, falsy closed flag); every kept row puts its token id once into the
  group of its own market id, there is one group per market id, and the group of a market
  id holds the token ids of its kept rows in the order of the rows. No token id occurs twice
  across the groups when the token ids of the kept rows are pairwise distinct. A result
  carries, per group, the market id and the number of its token ids, and the requests to
  the price endpoint carry exactly the token ids of the groups.
\<close>

theorem group_by_market_partition:
  "set (all_token_ids (group_by_market tokens)) = {tid. \<exists>t \<in> set tokens. keeps t \<and> token_id t = Some tid}
   \<and> mset (entries (group_by_market tokens)) = mset (kept_pairs tokens)
   \<and> distinct (map fst (group_by_market tokens))
   \<and> group_of (group_by_market tokens) c = map snd (filter (\<lambda>p. fst p = c) (kept_pairs tokens))
   \<and> (distinct (map snd (kept_pairs tokens)) \<longrightarrow> distinct (all_token_ids (group_by_market tokens)))
   \<and> (sum_yes_by_market srv tokens = (Inr results, sent) \<longrightarrow>
         mset (map (\<lambda>r. (fst r, fst (snd r))) results)
           = mset (map (\<lambda>g. (fst g, length (snd g))) (group_by_market tokens))
         \<and> concat sent = map (\<lambda>tid. (tid, ''BUY'')) (all_token_ids (group_by_market tokens)))"
proof -
  have a: "set (all_token_ids (group_by_market tokens)) = {tid. \<exists>t \<in> set tokens. keeps t \<and> token_id t = Some tid}"
    unfolding set_all_token_ids by (force simp: kept_pairs_def keeps_def)
  have "mset (all_token_ids (group_by_market tokens)) = mset (map snd (kept_pairs tokens))"
    using group_by_market_entries[of tokens] by (metis all_token_ids_entries mset_map)
  then have e: "distinct (map snd (kept_pairs tokens)) \<longrightarrow> distinct (all_token_ids (group_by_market tokens))"
    by (metis mset_eq_imp_distinct_iff)
  have f: "sum_yes_by_market srv tokens = (Inr results, sent) \<longrightarrow>
         mset (map (\<lambda>r. (fst r, fst (snd r))) results)
           = mset (map (\<lambda>g. (fst g, length (snd g))) (group_by_market tokens))
         \<and> concat sent = map (\<lambda>tid. (tid, ''BUY'')) (all_token_ids (group_by_market tokens))"
  proof
    assume "sum_yes_by_market srv tokens = (Inr results, sent)"
    from sum_yes_by_market_Inr[OF this] obtain pm unsorted where
      g: "get_best_prices srv (all_token_ids (group_by_market tokens)) ''BUY'' 50 = (Inr pm, sent)"
      and m: "market_results pm (group_by_market tokens) = Inr unsorted"
      and r: "results = list_sort sort_key unsorted" by blast
    have "mset (map (\<lambda>r. (fst r, fst (snd r))) results) = mset (map (\<lambda>r. (fst r, fst (snd r))) unsorted)"
      by (simp add: r mset_list_sort)
    then have "mset (map (\<lambda>r. (fst r, fst (snd r))) results)
           = mset (map (\<lambda>g. (fst g, length (snd g))) (group_by_market tokens))"
      by (simp add: market_results_counts[OF m])
    moreover have "concat sent = map (\<lambda>tid. (tid, ''BUY'')) (all_token_ids (group_by_market tokens))"
      using get_best_prices_sent[OF g] by simp
    ultimately show "mset (map (\<lambda>r. (fst r, fst (snd r))) results)
           = mset (map (\<lambda>g. (fst g, length (snd g))) (group_by_market tokens))
         \<and> concat sent = map (\<lambda>tid. (tid, ''BUY'')) (all_token_ids (group_by_market tokens))"
      by simp
  qed
  from a e f group_by_market_entries[of tokens] group_by_market_distinct[of tokens]
    group_by_market_group_of[of tokens c]
  show ?thesis by blast
qed

theorem group_by_market_partition_witness:
  "distinct (map snd (kept_pairs [example_row (Some ''M1'') (Some ''T1'') (PBool False),
      example_row None (Some ''T2'') (PBool False),
      example_row (Some ''M1'') (Some ''T3'') PNone]))
   \<and> distinct (all_token_ids (group_by_market [example_row (Some ''M1'') (Some ''T1'') (PBool False),
      example_row None (Some ''T2'') (PBool False),
      example_row (Some ''M1'') (Some ''T3'') PNone]))
   \<and> sum_yes_by_market (quotes_server [])
     [example_row (Some ''M1'') (Some ''T1'') (PBool False),
      example_row None (Some ''T2'') (PBool False),
      example_row (Some ''M1'') (Some ''T3'') PNone]
       = (Inr [(''M1'', 2, NaN)], [[(''T1'', ''BUY''), (''T3'', ''BUY'')]])
   \<and> group_of (group_by_market [example_row (Some ''M1'') (Some ''T1'') (PBool False),
      example_row None (Some ''T2'') (PBool False),
      example_row (Some ''M1'') (Some ''T3'') PNone]) ''M1'' = [''T1'', ''T3'']
   \<and> concat [[(''T1'', ''BUY''), (''T3'', ''BUY'')]]
       = map (\<lambda>tid. (tid, ''BUY'')) (all_token_ids (group_by_market
           [example_row (Some ''M1'') (Some ''T1'') (PBool False),
            example_row None (Some ''T2'') (PBool False),
            example_row (Some ''M1'') (Some ''T3'') PNone]))"
  using group_by_market_partition[of
      "[example_row (Some ''M1'') (Some ''T1'') (PBool False),
        example_row None (Some ''T2'') (PBool False),
        example_row (Some ''M1'') (Some ''T3'') PNone]" "''M1''" "quotes_server []"
      "[(''M1'', 2, NaN)]" "[[(''T1'', ''BUY''), (''T3'', ''BUY'')]]"]
  unfolding example_no_quotes example_groups
  by (simp add: kept_pairs_def keeps_def example_row_def all_token_ids_def group_of_def)

text \<open>
  C2: when \<^verbatim>\<open>sum_yes_by_market\<close> returns, every market group has its result, and the sum
  of the result is the sum of exactly the quotes of the group that are not NaN when there
  is such a quote (the quotes that are NaN are left out, not counted as zero), and NaN when
  there is none. The quotes of a group are the converted \<^verbatim>\<open>BUY\<close> quotes of its token ids
  in the fetched price map.
\<close>

theorem sum_yes_by_market_sums_finite_quotes:
  assumes "sum_yes_by_market srv tokens = (Inr results, sent)"
  shows "\<exists>price_map.
       get_best_prices srv (all_token_ids (group_by_market tokens)) ''BUY'' 50 = (Inr price_map, sent)
     \<and> length results = length (group_by_market tokens)
     \<and> (\<forall>g \<in> set (group_by_market tokens). \<exists>asks s.
            map (lookup_ask price_map) (snd g) = map Inr asks
          \<and> (fst g, length (snd g), s) \<in> set results
          \<and> (filter (\<lambda>x. \<not> isnan x) asks \<noteq> [] \<longrightarrow> s = py_sum (filter (\<lambda>x. \<not> isnan x) asks))
          \<and> (filter (\<lambda>x. \<not> isnan x) asks = [] \<longrightarrow> s = NaN))"
proof -
  from sum_yes_by_market_Inr[OF assms] obtain pm unsorted where
    g: "get_best_prices srv (all_token_ids (group_by_market tokens)) ''BUY'' 50 = (Inr pm, sent)"
    and m: "market_results pm (group_by_market tokens) = Inr unsorted"
    and r: "results = list_sort sort_key unsorted" by blast
  have len: "length results = length (group_by_market tokens)"
    by (simp add: r length_list_sort length_market_results[OF m])
  have each: "\<exists>asks s. map (lookup_ask pm) (snd g) = map Inr asks
          \<and> (fst g, length (snd g), s) \<in> set results
          \<and> (filter (\<lambda>x. \<not> isnan x) asks \<noteq> [] \<longrightarrow> s = py_sum (filter (\<lambda>x. \<not> isnan x) asks))
          \<and> (filter (\<lambda>x. \<not> isnan x) asks = [] \<longrightarrow> s = NaN)"
    if "g \<in> set (group_by_market tokens)" for g
  proof -
    from list_all2_in_set[OF market_results_Inr[OF m] that]
    obtain asks where asks: "market_asks pm (snd g) = Inr asks"
      and mem: "(fst g, length (snd g), sum_finite asks) \<in> set unsorted" by auto
    have "(fst g, length (snd g), sum_finite asks) \<in> set results"
      using mem by (simp add: r set_list_sort)
    moreover have "filter (\<lambda>x. \<not> isnan x) asks \<noteq> [] \<longrightarrow> sum_finite asks = py_sum (filter (\<lambda>x. \<not> isnan x) asks)"
      by (simp add: sum_finite_def finite_asks_def)
    moreover have "filter (\<lambda>x. \<not> isnan x) asks = [] \<longrightarrow> sum_finite asks = NaN"
      by (simp add: sum_finite_def finite_asks_def)
    ultimately show ?thesis using market_asks_Inr[OF asks] by blast
  qed
  from g len each show ?thesis by blast
qed

theorem sum_yes_by_market_sums_finite_quotes_witness:
  "sum_yes_by_market (quotes_server [(''T1'', ''0.5'')])
     [example_row (Some ''M2'') (Some ''T5'') PNone,
      example_row (Some ''M1'') (Some ''T1'') (PBool False),
      example_row (Some ''M1'') (Some ''T3'') (PBool False)]
   = (Inr [(''M1'', 2, Fin (1 / 2)), (''M2'', 1, NaN)],
      [[(''T5'', ''BUY''), (''T1'', ''BUY''), (''T3'', ''BUY'')]])
   \<and> (\<exists>asks. map (lookup_ask [(''T1'', PDict [(''BUY'', PStr ''0.5'')])]) [''T1'', ''T3''] = map Inr asks
          \<and> filter (\<lambda>x. \<not> isnan x) asks = [Fin (1 / 2)]
          \<and> py_sum (filter (\<lambda>x. \<not> isnan x) asks) = Fin (1 / 2))
   \<and> (\<exists>asks. map (lookup_ask [(''T1'', PDict [(''BUY'', PStr ''0.5'')])]) [''T5''] = map Inr asks
          \<and> filter (\<lambda>x. \<not> isnan x) asks = [])
   \<and> (\<exists>price_map.
       get_best_prices (quotes_server [(''T1'', ''0.5'')])
         (all_token_ids (group_by_market
            [example_row (Some ''M2'') (Some ''T5'') PNone,
             example_row (Some ''M1'') (Some ''T1'') (PBool False),
             example_row (Some ''M1'') (Some ''T3'') (PBool False)])) ''BUY'' 50
         = (Inr price_map, [[(''T5'', ''BUY''), (''T1'', ''BUY''), (''T3'', ''BUY'')]])
     \<and> length [(''M1'', 2 :: nat, Fin (1 / 2)), (''M2'', 1, NaN)]
         = length (group_by_market
            [example_row (Some ''M2'') (Some ''T5'') PNone,
             example_row (Some ''M1'') (Some ''T1'') (PBool False),
             example_row (Some ''M1'') (Some ''T3'') (PBool False)])
     \<and> (\<forall>g \<in> set (group_by_market
            [example_row (Some ''M2'') (Some ''T5'') PNone,
             example_row (Some ''M1'') (Some ''T1'') (PBool False),
             example_row (Some ''M1'') (Some ''T3'') (PBool False)]). \<exists>asks s.
            map (lookup_ask price_map) (snd g) = map Inr asks
          \<and> (fst g, length (snd g), s) \<in> set [(''M1'', 2, Fin (1 / 2)), (''M2'', 1, NaN)]
          \<and> (filter (\<lambda>x. \<not> isnan x) asks \<noteq> [] \<longrightarrow> s = py_sum (filter (\<lambda>x. \<not> isnan x) asks))
          \<and> (filter (\<lambda>x. \<not> isnan x) asks = [] \<longrightarrow> s = NaN)))"
proof -
  have a: "\<exists>asks. map (lookup_ask [(''T1'', PDict [(''BUY'', PStr ''0.5'')])]) [''T1'', ''T3''] = map Inr asks
          \<and> filter (\<lambda>x. \<not> isnan x) asks = [Fin (1 / 2)]
          \<and> py_sum (filter (\<lambda>x. \<not> isnan x) asks) = Fin (1 / 2)"
    by (rule exI[of _ "[Fin (1 / 2), NaN]"]) (simp add: example_ranked_asks py_sum_def double_half)
  have b: "\<exists>asks. map (lookup_ask [(''T1'', PDict [(''BUY'', PStr ''0.5'')])]) [''T5''] = map Inr asks
          \<and> filter (\<lambda>x. \<not> isnan x) asks = []"
    by (rule exI[of _ "[NaN]"]) (simp add: example_ranked_asks)
  from example_ranked a b sum_yes_by_market_sums_finite_quotes[OF example_ranked]
  show ?thesis by (intro conjI)
qed

text \<open>
  C3: the result list of \<^verbatim>\<open>sum_yes_by_market\<close> is sorted ascending by its key, the sum
  with NaN replaced by positive infinity, and the sort is stable: the results with one key
  keep the order of their groups. Every market whose sum is NaN comes after every market
  whose sum is finite. For the sums \<open>0.92\<close>, NaN, \<open>1.05\<close>, \<open>0.5\<close> the order of the output is
  \<open>0.5\<close>, \<open>0.92\<close>, \<open>1.05\<close>, NaN.
\<close>

theorem sum_yes_by_market_ranking:
  assumes "sum_yes_by_market srv tokens = (Inr results, sent)"
  shows "sorted_wrt (\<lambda>a b. \<not> flt (sort_key b) (sort_key a)) results
     \<and> (\<forall>i j. i < length results \<and> j < length results
            \<and> isnan (snd (snd (results ! i))) \<and> (\<exists>x. snd (snd (results ! j)) = Fin x) \<longrightarrow> j < i)
     \<and> (\<exists>price_map unsorted. market_results price_map (group_by_market tokens) = Inr unsorted
            \<and> mset results = mset unsorted
            \<and> (\<forall>k. filter (\<lambda>r. sort_key r = k) results = filter (\<lambda>r. sort_key r = k) unsorted))
     \<and> sort_key (c, n, NaN) = PosInf \<and> sort_key (c, n, Fin x) = Fin x
     \<and> list_sort sort_key
          [(''A'', 1, round_double (92 / 100)), (''B'', 1, NaN),
           (''C'', 1, round_double (105 / 100)), (''D'', 1, round_double (1 / 2))]
        = [(''D'', 1, round_double (1 / 2)), (''A'', 1, round_double (92 / 100)),
           (''C'', 1, round_double (105 / 100)), (''B'', 1, NaN)]"
proof -
  from sum_yes_by_market_Inr[OF assms] obtain pm unsorted where
    m: "market_results pm (group_by_market tokens) = Inr unsorted"
    and r: "results = list_sort sort_key unsorted" by blast
  have nn: "\<forall>y. \<not> isnan (sort_key y)"
    by (simp add: sort_key_not_nan)
  have a: "sorted_wrt (\<lambda>a b. \<not> flt (sort_key b) (sort_key a)) results"
    unfolding r by (rule sorted_list_sort[OF nn])
  have b: "\<forall>i j. i < length results \<and> j < length results
            \<and> isnan (snd (snd (results ! i))) \<and> (\<exists>x. snd (snd (results ! j)) = Fin x) \<longrightarrow> j < i"
  proof (intro allI impI)
    fix i j
    assume h: "i < length results \<and> j < length results
            \<and> isnan (snd (snd (results ! i))) \<and> (\<exists>x. snd (snd (results ! j)) = Fin x)"
    then obtain x where x: "snd (snd (results ! j)) = Fin x" by blast
    from h have ki: "sort_key (results ! i) = PosInf" by (simp add: sort_key_def)
    from x have kj: "sort_key (results ! j) = Fin x" by (simp add: sort_key_def)
    show "j < i"
    proof (rule ccontr)
      assume "\<not> j < i"
      moreover have "i \<noteq> j" using h x by auto
      ultimately have "i < j" by simp
      with a h have "\<not> flt (sort_key (results ! j)) (sort_key (results ! i))"
        by (simp add: sorted_wrt_iff_nth_less)
      then show False by (simp add: ki kj)
    qed
  qed
  have c: "\<exists>price_map unsorted. market_results price_map (group_by_market tokens) = Inr unsorted
            \<and> mset results = mset unsorted
            \<and> (\<forall>k. filter (\<lambda>r. sort_key r = k) results = filter (\<lambda>r. sort_key r = k) unsorted)"
    using m by (auto simp: r mset_list_sort filter_list_sort[OF nn])
  have d: "sort_key (c, n, NaN) = PosInf \<and> sort_key (c, n, Fin x) = Fin x"
    by (simp add: sort_key_def)
  from a b c d example_sort show ?thesis by blast
qed

theorem sum_yes_by_market_ranking_witness:
  "sum_yes_by_market (quotes_server [(''T1'', ''0.5'')])
     [example_row (Some ''M2'') (Some ''T5'') PNone,
      example_row (Some ''M1'') (Some ''T1'') (PBool False),
      example_row (Some ''M1'') (Some ''T3'') (PBool False)]
   = (Inr [(''M1'', 2, Fin (1 / 2)), (''M2'', 1, NaN)],
      [[(''T5'', ''BUY''), (''T1'', ''BUY''), (''T3'', ''BUY'')]])
   \<and> sorted_wrt (\<lambda>a b. \<not> flt (sort_key b) (sort_key a)) [(''M1'', 2 :: nat, Fin (1 / 2)), (''M2'', 1, NaN)]
   \<and> isnan (snd (snd ([(''M1'', 2 :: nat, Fin (1 / 2)), (''M2'', 1, NaN)] ! 1)))
   \<and> snd (snd ([(''M1'', 2 :: nat, Fin (1 / 2)), (''M2'', 1, NaN)] ! 0)) = Fin (1 / 2)
   \<and> (0 :: nat) < 1"
proof -
  note th = sum_yes_by_market_ranking[OF example_ranked, of "''M1''" 2 "1 / 2"]
  have "sorted_wrt (\<lambda>a b. \<not> flt (sort_key b) (sort_key a)) [(''M1'', 2 :: nat, Fin (1 / 2)), (''M2'', 1, NaN)]"
    using th by blast
  moreover have "(0 :: nat) < 1"
    using th[THEN conjunct2, THEN conjunct1, rule_format, of 1 0] by simp
  ultimately show ?thesis using example_ranked by simp
qed

text \<open>
  C8: for the two rows of market \<open>M1\<close> with the tokens \<open>T1\<close> and \<open>T2\<close>, both not closed, and
  a fetched price map with the \<^verbatim>\<open>BUY\<close> quotes \<^verbatim>\<open>"0.45"\<close> for \<open>T1\<close> and \<^verbatim>\<open>"0.52"\<close> for \<open>T2\<close>,
  \<^verbatim>\<open>sum_yes_by_market\<close> returns exactly one result: market \<open>M1\<close>, two tokens, and the sum
  \<open>0.97\<close>, the double that the literal \<^verbatim>\<open>0.97\<close> denotes.
\<close>

theorem sum_yes_by_market_end_to_end:
  assumes "get_best_prices srv [''T1'', ''T2''] ''BUY'' 50 = (Inr price_map, sent)"
    and "map_of price_map ''T1'' = Some (PDict [(''BUY'', PStr ''0.45'')])"
    and "map_of price_map ''T2'' = Some (PDict [(''BUY'', PStr ''0.52'')])"
  shows "sum_yes_by_market srv
           [\<lparr> condition_id = Some ''M1'', active_flag = a1, closed_flag = PBool False,
              token_id = Some ''T1'', label = l1 \<rparr>,
            \<lparr> condition_id = Some ''M1'', active_flag = a2, closed_flag = PBool False,
              token_id = Some ''T2'', label = l2 \<rparr>]
         = (Inr [(''M1'', 2, round_double (97 / 100))], sent)
       \<and> py_float (PStr ''0.97'') = Inr (round_double (97 / 100))"
proof -
  have g: "group_by_market
           [\<lparr> condition_id = Some ''M1'', active_flag = a1, closed_flag = PBool False,
              token_id = Some ''T1'', label = l1 \<rparr>,
            \<lparr> condition_id = Some ''M1'', active_flag = a2, closed_flag = PBool False,
              token_id = Some ''T2'', label = l2 \<rparr>] = [(''M1'', [''T1'', ''T2''])]"
    by (simp add: group_by_market_def group_step_def)
  have asks: "market_asks price_map [''T1'', ''T2'']
      = Inr [Fin (8106479329266893 / 18014398509481984), Fin (1170935903116329 / 2251799813685248)]"
    by (simp add: lookup_ask_quote[OF assms(2)] lookup_ask_quote[OF assms(3)] dict_get_def
          to_float_045 to_float_052 del: py_float.simps)
  have s: "sum_finite [Fin (8106479329266893 / 18014398509481984), Fin (1170935903116329 / 2251799813685248)]
      = round_double (97 / 100)"
    unfolding double_097 sum_finite_def finite_asks_def Let_def
    by (simp add: py_sum_045_052)
  have len: "length [''T1'', ''T2''] = 2"
    by simp
  have mr: "market_results price_map [(''M1'', [''T1'', ''T2''])] = Inr [(''M1'', 2, round_double (97 / 100))]"
    by (simp only: market_results.simps asks s sum.case len)
  have "sum_yes_by_market srv
           [\<lparr> condition_id = Some ''M1'', active_flag = a1, closed_flag = PBool False,
              token_id = Some ''T1'', label = l1 \<rparr>,
            \<lparr> condition_id = Some ''M1'', active_flag = a2, closed_flag = PBool False,
              token_id = Some ''T2'', label = l2 \<rparr>]
         = (Inr [(''M1'', 2, round_double (97 / 100))], sent)"
    unfolding sum_yes_by_market_def g Let_def
    by (simp add: all_token_ids_def assms(1) mr list_sort_def del: market_results.simps)
  moreover have "py_float (PStr ''0.97'') = Inr (round_double (97 / 100))"
    unfolding py_float.simps float_of_str_097 by simp
  ultimately show ?thesis by simp
qed

theorem sum_yes_by_market_end_to_end_witness:
  "get_best_prices (quotes_server [(''T1'', ''0.45''), (''T2'', ''0.52'')]) [''T1'', ''T2''] ''BUY'' 50
     = (Inr [(''T1'', PDict [(''BUY'', PStr ''0.45'')]), (''T2'', PDict [(''BUY'', PStr ''0.52'')])],
        [[(''T1'', ''BUY''), (''T2'', ''BUY'')]])
   \<and> sum_yes_by_market (quotes_server [(''T1'', ''0.45''), (''T2'', ''0.52'')])
           [\<lparr> condition_id = Some ''M1'', active_flag = PBool True, closed_flag = PBool False,
              token_id = Some ''T1'', label = PStr ''Yes'' \<rparr>,
            \<lparr> condition_id = Some ''M1'', active_flag = PBool True, closed_flag = PBool False,
              token_id = Some ''T2'', label = PStr ''No'' \<rparr>]
         = (Inr [(''M1'', 2, Fin (4368491638549381 / 4503599627370496))], [[(''T1'', ''BUY''), (''T2'', ''BUY'')]])
   \<and> py_float (PStr ''0.97'') = Inr (Fin (4368491638549381 / 4503599627370496))"
  using sum_yes_by_market_end_to_end[OF example_end_to_end_prices, of "PBool True" "PStr ''Yes''" "PBool True" "PStr ''No''"]
  unfolding double_097
  by (simp add: example_end_to_end_prices)

text \<open>
  C7: \<^verbatim>\<open>_to_float\<close> always returns: it gives NaN on \<^verbatim>\<open>None\<close> and on every value on which
  \<^verbatim>\<open>float\<close> raises (a string that is no number among them), and the float itself otherwise.
  So the quote of a token is NaN when the token is missing from the price map, when its
  entry has no \<^verbatim>\<open>BUY\<close> quote and when the quote is null, and a quote never makes the
  aggregator raise: once the prices are fetched and every entry of the price map is an
  object, \<^verbatim>\<open>sum_yes_by_market\<close> returns one result per group.
\<close>

theorem to_float_never_raises:
  "(\<exists>f. to_float x = Inr f)
   \<and> to_float PNone = Inr NaN
   \<and> (py_float x = Inl e \<longrightarrow> to_float x = Inr NaN)
   \<and> (y \<noteq> PNone \<and> py_float y = Inr f \<longrightarrow> to_float y = Inr f)
   \<and> (float_of_str s = None \<longrightarrow> to_float (PStr s) = Inr NaN)
   \<and> (map_of price_map tid = None \<longrightarrow> lookup_ask price_map tid = Inr NaN)
   \<and> (map_of price_map tid' = Some (PDict kvs) \<and> (map_of kvs ''BUY'' = None \<or> map_of kvs ''BUY'' = Some PNone)
        \<longrightarrow> lookup_ask price_map tid' = Inr NaN)
   \<and> (map_of price_map tid'' = Some (PDict kvs') \<longrightarrow> (\<exists>a. lookup_ask price_map tid'' = Inr a))
   \<and> (get_best_prices srv (all_token_ids (group_by_market tokens)) ''BUY'' 50 = (Inr pm, sent)
        \<and> (\<forall>t sides. map_of pm t = Some sides \<longrightarrow> (\<exists>d. sides = PDict d))
        \<longrightarrow> (\<exists>results. sum_yes_by_market srv tokens = (Inr results, sent)
               \<and> length results = length (group_by_market tokens)))"
proof -
  have a: "\<exists>f. to_float x = Inr f"
    by (rule to_float_Inr)
  have b: "to_float PNone = Inr NaN"
    by (simp add: to_float_def)
  have c: "py_float x = Inl e \<longrightarrow> to_float x = Inr NaN"
    by (simp add: to_float_def)
  have d: "y \<noteq> PNone \<and> py_float y = Inr f \<longrightarrow> to_float y = Inr f"
    by (simp add: to_float_def)
  have e: "float_of_str s = None \<longrightarrow> to_float (PStr s) = Inr NaN"
    by (simp add: to_float_def)
  have f: "map_of price_map tid = None \<longrightarrow> lookup_ask price_map tid = Inr NaN"
    by (simp add: lookup_ask_def to_float_def)
  have g: "map_of price_map tid' = Some (PDict kvs) \<and> (map_of kvs ''BUY'' = None \<or> map_of kvs ''BUY'' = Some PNone)
        \<longrightarrow> lookup_ask price_map tid' = Inr NaN"
    by (auto simp: lookup_ask_def to_float_def dict_get_def)
  have h: "map_of price_map tid'' = Some (PDict kvs') \<longrightarrow> (\<exists>a. lookup_ask price_map tid'' = Inr a)"
    using to_float_Inr by (simp add: lookup_ask_def)
  have i: "get_best_prices srv (all_token_ids (group_by_market tokens)) ''BUY'' 50 = (Inr pm, sent)
        \<and> (\<forall>t sides. map_of pm t = Some sides \<longrightarrow> (\<exists>d. sides = PDict d))
        \<longrightarrow> (\<exists>results. sum_yes_by_market srv tokens = (Inr results, sent)
               \<and> length results = length (group_by_market tokens))"
  proof
    assume p: "get_best_prices srv (all_token_ids (group_by_market tokens)) ''BUY'' 50 = (Inr pm, sent)
        \<and> (\<forall>t sides. map_of pm t = Some sides \<longrightarrow> (\<exists>d. sides = PDict d))"
    then obtain unsorted where u: "market_results pm (group_by_market tokens) = Inr unsorted"
      using market_results_dict[of pm "group_by_market tokens"] by blast
    have "sum_yes_by_market srv tokens = (Inr (list_sort sort_key unsorted), sent)"
      using p u by (simp add: sum_yes_by_market_def Let_def)
    moreover have "length (list_sort sort_key unsorted) = length (group_by_market tokens)"
      by (simp add: length_list_sort length_market_results[OF u])
    ultimately show "\<exists>results. sum_yes_by_market srv tokens = (Inr results, sent)
               \<and> length results = length (group_by_market tokens)" by blast
  qed
  from a b c d e f g h i show ?thesis by blast
qed

theorem to_float_never_raises_witness:
  "py_float (PStr ''abc'') = Inl ValueError
   \<and> to_float (PStr ''abc'') = Inr NaN
   \<and> py_float (PInt 3) = Inr (Fin 3)
   \<and> to_float (PInt 3) = Inr (Fin 3)
   \<and> float_of_str ''abc'' = None
   \<and> map_of [(''T1'', PDict [(''BUY'', PStr ''abc'')]), (''T2'', PDict [])] ''T5'' = None
   \<and> lookup_ask [(''T1'', PDict [(''BUY'', PStr ''abc'')]), (''T2'', PDict [])] ''T5'' = Inr NaN
   \<and> map_of [(''T1'', PDict [(''BUY'', PStr ''abc'')]), (''T2'', PDict [])] ''T2'' = Some (PDict [])
   \<and> lookup_ask [(''T1'', PDict [(''BUY'', PStr ''abc'')]), (''T2'', PDict [])] ''T2'' = Inr NaN
   \<and> lookup_ask [(''T1'', PDict [(''BUY'', PStr ''abc'')]), (''T2'', PDict [])] ''T1'' = Inr NaN
   \<and> get_best_prices (quotes_server [(''T1'', ''abc'')])
        (all_token_ids (group_by_market
           [example_row (Some ''M2'') (Some ''T5'') PNone,
            example_row (Some ''M1'') (Some ''T1'') (PBool False),
            example_row (Some ''M1'') (Some ''T3'') (PBool False)])) ''BUY'' 50
      = (Inr [(''T1'', PDict [(''BUY'', PStr ''abc'')])], [[(''T5'', ''BUY''), (''T1'', ''BUY''), (''T3'', ''BUY'')]])
   \<and> (\<exists>results. sum_yes_by_market (quotes_server [(''T1'', ''abc'')])
           [example_row (Some ''M2'') (Some ''T5'') PNone,
            example_row (Some ''M1'') (Some ''T1'') (PBool False),
            example_row (Some ''M1'') (Some ''T3'') (PBool False)]
         = (Inr results, [[(''T5'', ''BUY''), (''T1'', ''BUY''), (''T3'', ''BUY'')]])
       \<and> length results = 2)"
proof -
  have r3: "round_double 3 = Fin 3"
    by (rule round_double_positive[where e = 1 and q = "- 51" and m = 6755399441055744])
       (simp_all add: float_eval)
  have p: "get_best_prices (quotes_server [(''T1'', ''abc'')])
        (all_token_ids (group_by_market
           [example_row (Some ''M2'') (Some ''T5'') PNone,
            example_row (Some ''M1'') (Some ''T1'') (PBool False),
            example_row (Some ''M1'') (Some ''T3'') (PBool False)])) ''BUY'' 50
      = (Inr [(''T1'', PDict [(''BUY'', PStr ''abc'')])], [[(''T5'', ''BUY''), (''T1'', ''BUY''), (''T3'', ''BUY'')]])"
    unfolding example_ranked_groups by (simp add: all_token_ids_def example_malformed_prices)
  have q: "\<forall>t sides. map_of [(''T1'', PDict [(''BUY'', PStr ''abc'')])] t = Some sides \<longrightarrow> (\<exists>d. sides = PDict d)"
    by simp
  note th = to_float_never_raises[of "PStr ''abc''" ValueError "PInt 3" "Fin 3" "''abc''"
      "[(''T1'', PDict [(''BUY'', PStr ''abc'')]), (''T2'', PDict [])]" "''T5''" "''T2''" "[]" "''T1''"
      "[(''BUY'', PStr ''abc'')]" "quotes_server [(''T1'', ''abc'')]"
      "[example_row (Some ''M2'') (Some ''T5'') PNone,
            example_row (Some ''M1'') (Some ''T1'') (PBool False),
            example_row (Some ''M1'') (Some ''T3'') (PBool False)]"
      "[(''T1'', PDict [(''BUY'', PStr ''abc'')])]" "[[(''T5'', ''BUY''), (''T1'', ''BUY''), (''T3'', ''BUY'')]]"]
  have last: "get_best_prices (quotes_server [(''T1'', ''abc'')])
        (all_token_ids (group_by_market
           [example_row (Some ''M2'') (Some ''T5'') PNone,
            example_row (Some ''M1'') (Some ''T1'') (PBool False),
            example_row (Some ''M1'') (Some ''T3'') (PBool False)])) ''BUY'' 50
      = (Inr [(''T1'', PDict [(''BUY'', PStr ''abc'')])], [[(''T5'', ''BUY''), (''T1'', ''BUY''), (''T3'', ''BUY'')]])
     \<and> (\<forall>t sides. map_of [(''T1'', PDict [(''BUY'', PStr ''abc'')])] t = Some sides \<longrightarrow> (\<exists>d. sides = PDict d))
     \<longrightarrow> (\<exists>results. sum_yes_by_market (quotes_server [(''T1'', ''abc'')])
           [example_row (Some ''M2'') (Some ''T5'') PNone,
            example_row (Some ''M1'') (Some ''T1'') (PBool False),
            example_row (Some ''M1'') (Some ''T3'') (PBool False)]
         = (Inr results, [[(''T5'', ''BUY''), (''T1'', ''BUY''), (''T3'', ''BUY'')]])
       \<and> length results = length (group_by_market
           [example_row (Some ''M2'') (Some ''T5'') PNone,
            example_row (Some ''M1'') (Some ''T1'') (PBool False),
            example_row (Some ''M1'') (Some ''T3'') (PBool False)]))"
    using th by blast
  have s: "\<exists>results. sum_yes_by_market (quotes_server [(''T1'', ''abc'')])
           [example_row (Some ''M2'') (Some ''T5'') PNone,
            example_row (Some ''M1'') (Some ''T1'') (PBool False),
            example_row (Some ''M1'') (Some ''T3'') (PBool False)]
         = (Inr results, [[(''T5'', ''BUY''), (''T1'', ''BUY''), (''T3'', ''BUY'')]])
       \<and> length results = 2"
    using last[rule_format, OF conjI[OF p q]] by (auto simp: example_ranked_groups numeral_2_eq_2)
  have v: "py_float (PStr ''abc'') = Inl ValueError"
    by (simp add: float_of_str_abc)
  have w: "to_float (PStr ''abc'') = Inr NaN"
    using th v by blast
  show ?thesis
    using p s v w by (simp add: float_of_str_abc r3 to_float_def lookup_ask_def dict_get_def)
qed

text \<open>
  C6: when the order-book endpoint answers with the status 404, \<^verbatim>\<open>get_book\<close> returns the
  value \<^verbatim>\<open>{"error": "not_found", "token_id": <id>}\<close> and raises nothing. On every other
  error status it raises the HTTP error of that status; it raises an HTTP error on no
  other response, and whenever it raises, the answer was not a 404.
\<close>

theorem get_book_not_found:
  "(srv tid = Response 404 body \<longrightarrow>
      get_book srv tid = Inr (PDict [(''error'', PStr ''not_found''), (''token_id'', PStr tid)]))
   \<and> (srv tid' = Response status body' \<and> is_error_status status \<and> status \<noteq> 404 \<longrightarrow>
      get_book srv tid' = Inl (HTTPError status))
   \<and> (get_book srv tid'' = Inl (HTTPError status') \<longrightarrow>
      (\<exists>b. srv tid'' = Response status' b) \<and> is_error_status status' \<and> status' \<noteq> 404)
   \<and> (get_book srv tid'' = Inl e \<longrightarrow> (\<forall>b. srv tid'' \<noteq> Response 404 b))"
  by (auto simp: get_book_def split: response.splits option.splits if_splits)

theorem get_book_not_found_witness:
  "example_book_server ''unknown'' = Response 404 None
   \<and> get_book example_book_server ''unknown''
       = Inr (PDict [(''error'', PStr ''not_found''), (''token_id'', PStr ''unknown'')])
   \<and> example_book_server ''broken'' = Response 500 None
   \<and> is_error_status 500
   \<and> get_book example_book_server ''broken'' = Inl (HTTPError 500)"
proof -
  have a: "example_book_server ''unknown'' = Response 404 None"
    by (simp add: example_book_server_def)
  have b: "example_book_server ''broken'' = Response 500 None \<and> is_error_status 500 \<and> (500 :: nat) \<noteq> 404"
    by (simp add: example_book_server_def is_error_status_def)
  note th = get_book_not_found[of example_book_server "''unknown''" None "''broken''" 500 None "''broken''" 500 "HTTPError 500"]
  from th a have "get_book example_book_server ''unknown''
       = Inr (PDict [(''error'', PStr ''not_found''), (''token_id'', PStr ''unknown'')])"
    by blast
  moreover from th b have "get_book example_book_server ''broken'' = Inl (HTTPError 500)"
    by blast
  ultimately show ?thesis using a b by simp
qed

text \<open>
  C4: for a positive batch size, \<^verbatim>\<open>get_best_prices\<close> that returns has sent the token ids
  in consecutive batches, in order, each batch non-empty and of at most \<open>batch_size\<close> ids,
  and the keys of the merged mapping are the keys of all batch responses together. When
  the endpoint answers from a fixed quote per token, every positive batch size gives a
  merged mapping equal to the quotes of the requested tokens, so two batch sizes (such as 2
  and 50 on five token ids) give equal mappings.
\<close>

theorem get_best_prices_batches:
  "(0 < batch_size \<and> get_best_prices srv tids side batch_size = (Inr pm, sent) \<longrightarrow>
       concat sent = map (\<lambda>tid. (tid, side)) tids
     \<and> (\<forall>req \<in> set sent. req \<noteq> [] \<and> int (length req) \<le> batch_size)
     \<and> fst ` set pm = (\<Union>i<length sent. fst ` set (response_items (srv (take i sent) (sent ! i)))))
   \<and> ((\<forall>hist req. \<exists>status items. srv' hist req = Response status (Some (PDict items))
           \<and> \<not> is_error_status status \<and> distinct (map fst items)
           \<and> map_of items = quotes |` (fst ` set req))
        \<and> 0 < n \<and> 0 < m \<longrightarrow>
       (\<exists>pm1 sent1 pm2 sent2.
           get_best_prices srv' tids' side' n = (Inr pm1, sent1)
         \<and> get_best_prices srv' tids' side' m = (Inr pm2, sent2)
         \<and> map_of pm1 = map_of pm2
         \<and> map_of pm1 = quotes |` set tids'))"
proof -
  have a: "0 < batch_size \<and> get_best_prices srv tids side batch_size = (Inr pm, sent) \<longrightarrow>
       concat sent = map (\<lambda>tid. (tid, side)) tids
     \<and> (\<forall>req \<in> set sent. req \<noteq> [] \<and> int (length req) \<le> batch_size)
     \<and> fst ` set pm = (\<Union>i<length sent. fst ` set (response_items (srv (take i sent) (sent ! i))))"
    using get_best_prices_sent[of srv tids side batch_size pm sent] by blast
  have b: "(\<forall>hist req. \<exists>status items. srv' hist req = Response status (Some (PDict items))
           \<and> \<not> is_error_status status \<and> distinct (map fst items)
           \<and> map_of items = quotes |` (fst ` set req))
        \<and> 0 < n \<and> 0 < m \<longrightarrow>
       (\<exists>pm1 sent1 pm2 sent2.
           get_best_prices srv' tids' side' n = (Inr pm1, sent1)
         \<and> get_best_prices srv' tids' side' m = (Inr pm2, sent2)
         \<and> map_of pm1 = map_of pm2
         \<and> map_of pm1 = quotes |` set tids')"
  proof
    assume h: "(\<forall>hist req. \<exists>status items. srv' hist req = Response status (Some (PDict items))
           \<and> \<not> is_error_status status \<and> distinct (map fst items)
           \<and> map_of items = quotes |` (fst ` set req))
        \<and> 0 < n \<and> 0 < m"
    from get_best_prices_oracle[of srv' quotes n tids' side'] h
    obtain pm1 sent1 where 1: "get_best_prices srv' tids' side' n = (Inr pm1, sent1)"
      "map_of pm1 = quotes |` set tids'" by blast
    from get_best_prices_oracle[of srv' quotes m tids' side'] h
    obtain pm2 sent2 where 2: "get_best_prices srv' tids' side' m = (Inr pm2, sent2)"
      "map_of pm2 = quotes |` set tids'" by blast
    from 1 2 show "\<exists>pm1 sent1 pm2 sent2.
           get_best_prices srv' tids' side' n = (Inr pm1, sent1)
         \<and> get_best_prices srv' tids' side' m = (Inr pm2, sent2)
         \<and> map_of pm1 = map_of pm2
         \<and> map_of pm1 = quotes |` set tids'" by simp
  qed
  from a b show ?thesis by blast
qed


theorem get_best_prices_batches_witness:
  "get_best_prices (flat_price_server ''0.5'') [''a'', ''b'', ''c'', ''d'', ''e''] ''BUY'' 2
     = (Inr ([(''a'', PDict [(''BUY'', PStr ''0.5'')]), (''b'', PDict [(''BUY'', PStr ''0.5'')]),
             (''c'', PDict [(''BUY'', PStr ''0.5'')]), (''d'', PDict [(''BUY'', PStr ''0.5'')]),
             (''e'', PDict [(''BUY'', PStr ''0.5'')])]),
        [[(''a'', ''BUY''), (''b'', ''BUY'')], [(''c'', ''BUY''), (''d'', ''BUY'')], [(''e'', ''BUY'')]])
   \<and> get_best_prices (flat_price_server ''0.5'') [''a'', ''b'', ''c'', ''d'', ''e''] ''BUY'' 50
     = (Inr ([(''a'', PDict [(''BUY'', PStr ''0.5'')]), (''b'', PDict [(''BUY'', PStr ''0.5'')]),
             (''c'', PDict [(''BUY'', PStr ''0.5'')]), (''d'', PDict [(''BUY'', PStr ''0.5'')]),
             (''e'', PDict [(''BUY'', PStr ''0.5'')])]),
        [[(''a'', ''BUY''), (''b'', ''BUY''), (''c'', ''BUY''), (''d'', ''BUY''), (''e'', ''BUY'')]])
   \<and> concat [[(''a'', ''BUY''), (''b'', ''BUY'')], [(''c'', ''BUY''), (''d'', ''BUY'')], [(''e'', ''BUY'')]] = map (\<lambda>tid. (tid, ''BUY'')) [''a'', ''b'', ''c'', ''d'', ''e'']
   \<and> fst ` set ([(''a'', PDict [(''BUY'', PStr ''0.5'')]), (''b'', PDict [(''BUY'', PStr ''0.5'')]),
             (''c'', PDict [(''BUY'', PStr ''0.5'')]), (''d'', PDict [(''BUY'', PStr ''0.5'')]),
             (''e'', PDict [(''BUY'', PStr ''0.5'')])])
       = (\<Union>i<length [[(''a'', ''BUY''), (''b'', ''BUY'')], [(''c'', ''BUY''), (''d'', ''BUY'')], [(''e'', ''BUY'')]].
            fst ` set (response_items (flat_price_server ''0.5'' (take i [[(''a'', ''BUY''), (''b'', ''BUY'')], [(''c'', ''BUY''), (''d'', ''BUY'')], [(''e'', ''BUY'')]]) ([[(''a'', ''BUY''), (''b'', ''BUY'')], [(''c'', ''BUY''), (''d'', ''BUY'')], [(''e'', ''BUY'')]] ! i))))
   \<and> (\<exists>pm1 sent1 pm2 sent2.
           get_best_prices (flat_price_server ''0.5'') [''a'', ''b'', ''c'', ''d'', ''e''] ''BUY'' 2 = (Inr pm1, sent1)
         \<and> get_best_prices (flat_price_server ''0.5'') [''a'', ''b'', ''c'', ''d'', ''e''] ''BUY'' 50 = (Inr pm2, sent2)
         \<and> map_of pm1 = map_of pm2
         \<and> map_of pm1 = (\<lambda>tid. Some (PDict [(''BUY'', PStr ''0.5'')])) |` set [''a'', ''b'', ''c'', ''d'', ''e''])"
proof -
  note th = get_best_prices_batches[where batch_size = 2 and srv = "flat_price_server ''0.5''"
      and tids = "[''a'', ''b'', ''c'', ''d'', ''e'']" and side = "''BUY''"
      and pm = "[(''a'', PDict [(''BUY'', PStr ''0.5'')]), (''b'', PDict [(''BUY'', PStr ''0.5'')]),
             (''c'', PDict [(''BUY'', PStr ''0.5'')]), (''d'', PDict [(''BUY'', PStr ''0.5'')]),
             (''e'', PDict [(''BUY'', PStr ''0.5'')])]"
      and sent = "[[(''a'', ''BUY''), (''b'', ''BUY'')], [(''c'', ''BUY''), (''d'', ''BUY'')], [(''e'', ''BUY'')]]"
      and srv' = "flat_price_server ''0.5''"
      and quotes = "\<lambda>tid. Some (PDict [(''BUY'', PStr ''0.5'')])"
      and n = 2 and m = 50 and tids' = "[''a'', ''b'', ''c'', ''d'', ''e'']" and side' = "''BUY''"]
  have a: "concat [[(''a'', ''BUY''), (''b'', ''BUY'')], [(''c'', ''BUY''), (''d'', ''BUY'')], [(''e'', ''BUY'')]] = map (\<lambda>tid. (tid, ''BUY'')) [''a'', ''b'', ''c'', ''d'', ''e'']
   \<and> fst ` set ([(''a'', PDict [(''BUY'', PStr ''0.5'')]), (''b'', PDict [(''BUY'', PStr ''0.5'')]),
             (''c'', PDict [(''BUY'', PStr ''0.5'')]), (''d'', PDict [(''BUY'', PStr ''0.5'')]),
             (''e'', PDict [(''BUY'', PStr ''0.5'')])])
       = (\<Union>i<length [[(''a'', ''BUY''), (''b'', ''BUY'')], [(''c'', ''BUY''), (''d'', ''BUY'')], [(''e'', ''BUY'')]].
            fst ` set (response_items (flat_price_server ''0.5'' (take i [[(''a'', ''BUY''), (''b'', ''BUY'')], [(''c'', ''BUY''), (''d'', ''BUY'')], [(''e'', ''BUY'')]]) ([[(''a'', ''BUY''), (''b'', ''BUY'')], [(''c'', ''BUY''), (''d'', ''BUY'')], [(''e'', ''BUY'')]] ! i))))"
    using th example_batches_of_two by simp
  have b: "(\<exists>pm1 sent1 pm2 sent2.
           get_best_prices (flat_price_server ''0.5'') [''a'', ''b'', ''c'', ''d'', ''e''] ''BUY'' 2 = (Inr pm1, sent1)
         \<and> get_best_prices (flat_price_server ''0.5'') [''a'', ''b'', ''c'', ''d'', ''e''] ''BUY'' 50 = (Inr pm2, sent2)
         \<and> map_of pm1 = map_of pm2
         \<and> map_of pm1 = (\<lambda>tid. Some (PDict [(''BUY'', PStr ''0.5'')])) |` set [''a'', ''b'', ''c'', ''d'', ''e''])"
    using th flat_price_server_oracle[of "''0.5''"] by simp
  from a b example_batches_of_two example_batch_of_fifty show ?thesis
    by (intro conjI) simp_all
qed

text \<open>
  C5, as the specification states it: the label of a row is the first present of the
  fields \<open>name\<close>, \<open>outcome\<close>, \<open>title\<close> of the token. It fails on a token whose name is
  present and empty: the label is the outcome.
\<close>

theorem flatten_label_first_present_counterexample:
  "map label (flatten_tokens_from_simplified str_of_text
     \<lparr> page_data = Some [\<lparr> m_condition_id = Some ''M1'', m_active = PBool True, m_closed = PBool False,
          m_tokens = Some [\<lparr> t_token_id = PStr ''T1'', t_name = PStr '''', t_outcome = PStr ''Yes'',
                             t_title = PNone \<rparr>] \<rparr>] \<rparr>)
   \<noteq> [first_present [PStr '''', PStr ''Yes'', PNone]]"
  by (simp add: flatten_tokens_from_simplified_def market_tokens_def token_to_row_def py_or_def)

text \<open>
  C5, amended: the normalizer emits one row per token of each market of the page, in order.
  A row carries the condition id of its market, the active and closed flags of the market
  as booleans, the token id as a string, or none when it is null (such a row is kept), and
  as label the first truthy of \<open>name\<close>, \<open>outcome\<close>, \<open>title\<close>, or the title when none is
  truthy. The number of rows is the number of tokens of the page, a page without data
  gives no row, and a page with one market of two tokens gives two rows with the
  condition id and the closed flag of the market.
\<close>

theorem flatten_tokens_rows:
  "flatten_tokens_from_simplified py_str \<lparr> page_data = Some ms \<rparr>
     = concat (map (\<lambda>m. map (\<lambda>t.
         \<lparr> condition_id = m_condition_id m,
           active_flag = PBool (truthy (m_active m)),
           closed_flag = PBool (truthy (m_closed m)),
           token_id = (if t_token_id t \<noteq> PNone then Some (py_str (t_token_id t)) else None),
           label = (if truthy (t_name t) then t_name t
                    else if truthy (t_outcome t) then t_outcome t else t_title t) \<rparr>)
         (case m_tokens m of None \<Rightarrow> [] | Some ts \<Rightarrow> ts)) ms)
   \<and> length (flatten_tokens_from_simplified py_str \<lparr> page_data = Some ms \<rparr>)
       = sum_list (map (\<lambda>m. case m_tokens m of None \<Rightarrow> 0 | Some ts \<Rightarrow> length ts) ms)
   \<and> flatten_tokens_from_simplified py_str \<lparr> page_data = None \<rparr> = []
   \<and> (m_tokens m = Some [t1, t2] \<longrightarrow>
        (\<exists>r1 r2. flatten_tokens_from_simplified py_str \<lparr> page_data = Some [m] \<rparr> = [r1, r2]
           \<and> condition_id r1 = m_condition_id m \<and> condition_id r2 = m_condition_id m
           \<and> closed_flag r1 = PBool (truthy (m_closed m)) \<and> closed_flag r2 = closed_flag r1))"
proof -
  have a: "flatten_tokens_from_simplified py_str \<lparr> page_data = Some ms \<rparr>
     = concat (map (\<lambda>m. map (\<lambda>t.
         \<lparr> condition_id = m_condition_id m,
           active_flag = PBool (truthy (m_active m)),
           closed_flag = PBool (truthy (m_closed m)),
           token_id = (if t_token_id t \<noteq> PNone then Some (py_str (t_token_id t)) else None),
           label = (if truthy (t_name t) then t_name t
                    else if truthy (t_outcome t) then t_outcome t else t_title t) \<rparr>)
         (case m_tokens m of None \<Rightarrow> [] | Some ts \<Rightarrow> ts)) ms)"
    by (simp add: flatten_tokens_from_simplified_def market_tokens_def token_to_row_def[abs_def] py_or_def)
  have b: "length (flatten_tokens_from_simplified py_str \<lparr> page_data = Some ms \<rparr>)
       = sum_list (map (\<lambda>m. case m_tokens m of None \<Rightarrow> 0 | Some ts \<Rightarrow> length ts) ms)"
    by (induction ms)
       (auto simp: flatten_tokens_from_simplified_def market_tokens_def split: option.splits)
  have c: "flatten_tokens_from_simplified py_str \<lparr> page_data = None \<rparr> = []"
    by (simp add: flatten_tokens_from_simplified_def)
  have d: "m_tokens m = Some [t1, t2] \<longrightarrow>
        (\<exists>r1 r2. flatten_tokens_from_simplified py_str \<lparr> page_data = Some [m] \<rparr> = [r1, r2]
           \<and> condition_id r1 = m_condition_id m \<and> condition_id r2 = m_condition_id m
           \<and> closed_flag r1 = PBool (truthy (m_closed m)) \<and> closed_flag r2 = closed_flag r1)"
    by (simp add: flatten_tokens_from_simplified_def market_tokens_def token_to_row_def)
  from a b c d show ?thesis by blast
qed

theorem flatten_tokens_rows_witness:
  "m_tokens \<lparr> m_condition_id = Some ''M1'', m_active = PBool True, m_closed = PBool False,
       m_tokens = Some [\<lparr> t_token_id = PStr ''T1'', t_name = PStr ''Yes'', t_outcome = PNone, t_title = PNone \<rparr>,
                        \<lparr> t_token_id = PNone, t_name = PStr '''', t_outcome = PStr ''No'', t_title = PNone \<rparr>] \<rparr>
     = Some [\<lparr> t_token_id = PStr ''T1'', t_name = PStr ''Yes'', t_outcome = PNone, t_title = PNone \<rparr>,
             \<lparr> t_token_id = PNone, t_name = PStr '''', t_outcome = PStr ''No'', t_title = PNone \<rparr>]
   \<and> flatten_tokens_from_simplified str_of_text
       \<lparr> page_data = Some [\<lparr> m_condition_id = Some ''M1'', m_active = PBool True, m_closed = PBool False,
          m_tokens = Some [\<lparr> t_token_id = PStr ''T1'', t_name = PStr ''Yes'', t_outcome = PNone, t_title = PNone \<rparr>,
                           \<lparr> t_token_id = PNone, t_name = PStr '''', t_outcome = PStr ''No'', t_title = PNone \<rparr>] \<rparr>] \<rparr>
     = [\<lparr> condition_id = Some ''M1'', active_flag = PBool True, closed_flag = PBool False,
          token_id = Some ''T1'', label = PStr ''Yes'' \<rparr>,
        \<lparr> condition_id = Some ''M1'', active_flag = PBool True, closed_flag = PBool False,
          token_id = None, label = PStr ''No'' \<rparr>]"
  using flatten_tokens_rows[of str_of_text
      "[\<lparr> m_condition_id = Some ''M1'', m_active = PBool True, m_closed = PBool False,
          m_tokens = Some [\<lparr> t_token_id = PStr ''T1'', t_name = PStr ''Yes'', t_outcome = PNone, t_title = PNone \<rparr>,
                           \<lparr> t_token_id = PNone, t_name = PStr '''', t_outcome = PStr ''No'', t_title = PNone \<rparr>] \<rparr>]"
      "\<lparr> m_condition_id = Some ''M1'', m_active = PBool True, m_closed = PBool False,
          m_tokens = Some [\<lparr> t_token_id = PStr ''T1'', t_name = PStr ''Yes'', t_outcome = PNone, t_title = PNone \<rparr>,
                           \<lparr> t_token_id = PNone, t_name = PStr '''', t_outcome = PStr ''No'', t_title = PNone \<rparr>] \<rparr>"
      "\<lparr> t_token_id = PStr ''T1'', t_name = PStr ''Yes'', t_outcome = PNone, t_title = PNone \<rparr>"
      "\<lparr> t_token_id = PNone, t_name = PStr '''', t_outcome = PStr ''No'', t_title = PNone \<rparr>"]
  by (simp add: str_of_text_def)

end
